theory Spec2Isabelle
  imports Main "HOL-Library.Multiset"
begin

section \<open>Values, states and errors of the planner\<close>

text \<open>
  The planner is TypeScript compiled to JavaScript. A variable of type \<open>string\<close> can hold
  \<open>null\<close> (the gripper holds nothing) or \<open>undefined\<close> (what \<open>pop()\<close> gives on an empty
  array and what an index beyond an array's length reads), and the source tells them apart
  in places: \<open>==\<close> against \<open>null\<close> accepts both, \<open>===\<close> does not.
\<close>

datatype val = Undefined | Null | Str string

text \<open>\<open>v == null\<close> in JavaScript: true of \<open>null\<close> and of \<open>undefined\<close>.\<close>

fun looseNull :: "val \<Rightarrow> bool" where
  "looseNull Undefined = True"
| "looseNull Null = True"
| "looseNull (Str x) = False"

text \<open>A value used as a property key is converted to a string.\<close>

fun propertyKey :: "val \<Rightarrow> string" where
  "propertyKey Undefined = ''undefined''"
| "propertyKey Null = ''null''"
| "propertyKey (Str x) = x"

text \<open>
  What the code can throw: \<open>Planner.Error\<close> with its message, the \<open>TypeError\<close> of the
  runtime (a property read on \<open>undefined\<close> or \<open>null\<close>), and whatever an external
  collaborator (the search engine) throws.
\<close>

datatype error = PlannerError string | TypeError | ExternalError string

definition ebind :: "error + 'a \<Rightarrow> ('a \<Rightarrow> error + 'b) \<Rightarrow> error + 'b" where
  "ebind m f = (case m of Inl e \<Rightarrow> Inl e | Inr x \<Rightarrow> f x)"

text \<open>
  \<open>Heuristics.State\<close> (the class itself is declared in \<open>Heuristics.ts\<close>): the three fields
  its constructor is given, which are the fields \<open>Planner.ts\<close> reads and writes.
  A stack lists its objects bottom first, so the top is the last element.
\<close>

record State =
  arm :: int
  holding :: val
  stacks :: "val list list"

text \<open>
  The object \<open>Heuristics.computeObjectPosition\<close> returns, with the four fields
  \<open>heightDifference\<close> reads. \<open>stackNo\<close> and \<open>heightNo\<close> are array indices; the source
  takes care to use them as numbers (\<open>(+a.heightNo) + 1\<close>, subtraction), so they are
  integers here.
\<close>

record ObjectPosition =
  isHeld :: bool
  isFloor :: bool
  stackNo :: int
  heightNo :: int

text \<open>\<open>Interpreter.Literal\<close>: polarity, relation tag and operand names.\<close>

record Literal =
  pol :: bool
  rel :: string
  args :: "string list"

text \<open>\<open>atom.args[i]\<close>: reading beyond the end of an array gives \<open>undefined\<close>.\<close>

definition argAt :: "string list \<Rightarrow> nat \<Rightarrow> val" where
  "argAt xs i = (if i < length xs then Str (xs ! i) else Undefined)"

section \<open>The relation evaluator\<close>

text \<open>
  \<open>heightDifference\<close> (Planner.ts, lines 98 to 120). \<open>Heuristics.computeObjectPosition\<close>
  is not among the sources at hand, so the function takes it as the parameter \<open>cop\<close>.
\<close>

definition heightDifference ::
  "(State \<Rightarrow> val \<Rightarrow> ObjectPosition) \<Rightarrow> State \<Rightarrow> val \<Rightarrow> val \<Rightarrow> error + int" where
  "heightDifference cop s aboveObj belowObj =
     (let a = cop s aboveObj; b = cop s belowObj in
      if isHeld b \<or> isHeld a then Inr (- 1)
      else if isFloor a then
        Inl (PlannerError (''heightDiff: Floor cannot be above anything... '' @
                           ''Should never happen.''))
      else if isFloor b then Inr (heightNo a + 1)
      else if stackNo a = stackNo b then Inr (heightNo a - heightNo b)
      else Inr (- 1))"

text \<open>The closure \<open>ret\<close> of \<open>testAtom\<close>: the polarity adjustment.\<close>

definition ret :: "Literal \<Rightarrow> bool \<Rightarrow> bool" where
  "ret atom result = (if pol atom then result else \<not> result)"

text \<open>\<open>testAtom\<close> (lines 122 to 152); the \<open>switch\<close> compares the tag with \<open>===\<close>.\<close>

definition testAtom ::
  "(State \<Rightarrow> val \<Rightarrow> ObjectPosition) \<Rightarrow> State \<Rightarrow> Literal \<Rightarrow> error + bool" where
  "testAtom cop s atom =
     (if rel atom = ''holding'' then Inr (ret atom (holding s = argAt (args atom) 0))
      else if rel atom = ''inside'' \<or> rel atom = ''ontop'' then
        ebind (heightDifference cop s (argAt (args atom) 0) (argAt (args atom) 1))
          (\<lambda>d. Inr (ret atom (d = 1)))
      else if rel atom = ''above'' then
        ebind (heightDifference cop s (argAt (args atom) 0) (argAt (args atom) 1))
          (\<lambda>d. Inr (ret atom (d > 0)))
      else Inl (PlannerError (''!!! Unimplemented relation in testAtom: '' @ rel atom)))"

text \<open>\<open>testConjunctiveClause\<close> (lines 83 to 91): stops at the first literal that is false.\<close>

fun testConjunctiveClause ::
  "(State \<Rightarrow> val \<Rightarrow> ObjectPosition) \<Rightarrow> State \<Rightarrow> Literal list \<Rightarrow> error + bool" where
  "testConjunctiveClause cop s [] = Inr True"
| "testConjunctiveClause cop s (atom # c) =
     ebind (testAtom cop s atom)
       (\<lambda>t. if \<not> t then Inr False else testConjunctiveClause cop s c)"

text \<open>\<open>computeGoalFunction\<close> (lines 71 to 81): stops at the first clause that is true.\<close>

fun computeGoalFunction ::
  "(State \<Rightarrow> val \<Rightarrow> ObjectPosition) \<Rightarrow> Literal list list \<Rightarrow> State \<Rightarrow> error + bool" where
  "computeGoalFunction cop [] s = Inr False"
| "computeGoalFunction cop (c # intprt) s =
     ebind (testConjunctiveClause cop s c)
       (\<lambda>t. if t then Inr True else computeGoalFunction cop intprt s)"

section \<open>The transition generator\<close>

text \<open>
  \<open>cloneState\<close> (lines 228 to 234): a new array receives a \<open>slice()\<close> of every stack,
  and a new state object receives \<open>arm\<close>, \<open>holding\<close> and the new array. In this
  value-level model a copy of a list is the list; the store-level model further down
  keeps track of which array is which.
\<close>

definition cloneState :: "State \<Rightarrow> State" where
  "cloneState s =
     \<lparr>arm = arm s, holding = holding s,
      stacks = foldl (\<lambda>rs row. rs @ [row]) [] (stacks s)\<rparr>"

text \<open>
  \<open>s.stacks[s.arm]\<close>: the stack under the arm, \<open>None\<close> standing for the \<open>undefined\<close>
  that an index outside the array reads.
\<close>

definition stackAt :: "State \<Rightarrow> val list option" where
  "stackAt s =
     (if 0 \<le> arm s \<and> arm s < int (length (stacks s)) then Some (stacks s ! nat (arm s))
      else None)"

text \<open>
  \<open>performAction\<close> (lines 190 to 212). A neighbour \<open>{state, action}\<close> is the pair of the
  label and the state. \<open>pop()\<close> on an empty array returns \<open>undefined\<close> and leaves the
  array empty; \<open>pop\<close> or \<open>push\<close> on \<open>undefined\<close> (no stack under the arm) is a
  \<open>TypeError\<close>.
\<close>

definition performAction :: "string \<Rightarrow> State \<Rightarrow> error + (string \<times> State)" where
  "performAction action state =
     (let newState = cloneState state in
      if action = ''l'' then Inr (action, newState\<lparr>arm := arm state - 1\<rparr>)
      else if action = ''r'' then Inr (action, newState\<lparr>arm := arm state + 1\<rparr>)
      else if action = ''p'' then
        (case stackAt newState of
           None \<Rightarrow> Inl TypeError
         | Some st \<Rightarrow>
             Inr (action,
                  newState\<lparr>stacks := (stacks newState)[nat (arm newState) := butlast st],
                           holding := (if st = [] then Undefined else last st)\<rparr>))
      else if action = ''d'' then
        (case stackAt newState of
           None \<Rightarrow> Inl TypeError
         | Some st \<Rightarrow>
             Inr (action,
                  newState\<lparr>stacks := (stacks newState)[nat (arm newState) := st @ [holding newState]],
                           holding := Null\<rparr>))
      else Inl (PlannerError (''ERROR: unknown action '' @ action)))"

text \<open>
  \<open>ObjectDefinition\<close> is declared in \<open>World.ts\<close>, which is not among the sources at hand;
  the specification lists its content as form, size and color. \<open>Planner.ts\<close> only passes
  such objects on.
\<close>

record ObjectDefinition =
  form :: string
  size :: string
  color :: string

text \<open>
  The dictionary is a plain JavaScript object, and \<open>worldDictionary[name]\<close> is a property
  read: it gives the definition stored under the name, or, for a name the dictionary
  does not have, the member of that name that every object inherits from
  \<open>Object.prototype\<close>, or \<open>undefined\<close>. The map \<open>string \<rightharpoonup> ObjectDefinition\<close> holds the
  dictionary's own properties.
\<close>

datatype property =
  OwnDefinition ObjectDefinition | InheritedMember string | UndefinedProperty

definition objectPrototypeMembers :: "string list" where
  "objectPrototypeMembers =
     [''constructor'', ''toString'', ''toLocaleString'', ''valueOf'', ''hasOwnProperty'',
      ''isPrototypeOf'', ''propertyIsEnumerable'', ''__proto__'', ''__defineGetter__'',
      ''__defineSetter__'', ''__lookupGetter__'', ''__lookupSetter__'']"

definition readProperty :: "(string \<rightharpoonup> ObjectDefinition) \<Rightarrow> string \<Rightarrow> property" where
  "readProperty d k =
     (case d k of
        Some od \<Rightarrow> OwnDefinition od
      | None \<Rightarrow> if k \<in> set objectPrototypeMembers then InheritedMember k
                else UndefinedProperty)"

text \<open>
  \<open>canSupport\<close> (lines 214 to 219). The module variable \<open>worldDictionary\<close> is \<open>null\<close>
  until \<open>planInterpretation\<close> sets it, and indexing \<open>null\<close> is a \<open>TypeError\<close>.
  \<open>Interpreter.canSupport\<close> is external and is the parameter \<open>ics\<close>; it is given whatever
  the two property reads gave.
\<close>

definition canSupport ::
  "(property \<Rightarrow> property \<Rightarrow> bool) \<Rightarrow>
   (string \<rightharpoonup> ObjectDefinition) option \<Rightarrow> val \<Rightarrow> val \<Rightarrow> error + bool" where
  "canSupport ics worldDictionary aboveObj belowObj =
     (case worldDictionary of
        None \<Rightarrow> Inl TypeError
      | Some d \<Rightarrow>
          (let objA = readProperty d (propertyKey aboveObj);
               objB = readProperty d (propertyKey belowObj)
           in Inr (ics objA objB)))"

text \<open>\<open>result.push(performAction(...))\<close>: the call may throw before anything is pushed.\<close>

definition push :: "'a list \<Rightarrow> error + 'a \<Rightarrow> error + 'a list" where
  "push result m = ebind m (\<lambda>n. Inr (result @ [n]))"

text \<open>\<open>neighbours\<close> (lines 154 to 188).\<close>

definition neighbours ::
  "(property \<Rightarrow> property \<Rightarrow> bool) \<Rightarrow>
   (string \<rightharpoonup> ObjectDefinition) option \<Rightarrow> State \<Rightarrow> error + (string \<times> State) list" where
  "neighbours ics worldDictionary s =
     (let numStacks = int (length (stacks s)) in
      ebind (if arm s > 0 then push [] (performAction ''l'' s) else Inr [])
        (\<lambda>r1. ebind (if arm s < numStacks - 1 then push r1 (performAction ''r'' s) else Inr r1)
          (\<lambda>r2.
             if looseNull (holding s) then
               (case stackAt s of
                  None \<Rightarrow> Inl TypeError
                | Some st \<Rightarrow>
                    if length st > 0 then push r2 (performAction ''p'' s) else Inr r2)
             else
               (case stackAt s of
                  None \<Rightarrow> Inl TypeError
                | Some currStack \<Rightarrow>
                    if length currStack > 0 then
                      ebind (canSupport ics worldDictionary (holding s) (last currStack))
                        (\<lambda>ok. if ok then push r2 (performAction ''d'' s) else Inr r2)
                    else push r2 (performAction ''d'' s)))))"

text \<open>
  The states the search can visit from a start state: those reached by finitely many
  transitions, each of them an element of what \<open>neighbours\<close> returned.
\<close>

inductive reachable ::
  "(property \<Rightarrow> property \<Rightarrow> bool) \<Rightarrow>
   (string \<rightharpoonup> ObjectDefinition) option \<Rightarrow> State \<Rightarrow> State \<Rightarrow> bool"
  for ics worldDictionary s0 where
  start: "reachable ics worldDictionary s0 s0"
| step: "reachable ics worldDictionary s0 s \<Longrightarrow> neighbours ics worldDictionary s = Inr ns \<Longrightarrow>
         (a, s') \<in> set ns \<Longrightarrow> reachable ics worldDictionary s0 s'"

text \<open>
  The number of places where the object named \<open>x\<close> is: one if the gripper holds it, plus
  the number of stack positions that carry it.
\<close>

definition occurrences :: "State \<Rightarrow> string \<Rightarrow> nat" where
  "occurrences s x =
     (if holding s = Str x then 1 else 0)
     + sum_list (map (\<lambda>st. count_list st (Str x)) (stacks s))"

section \<open>The transition generator on the store\<close>

text \<open>
  In JavaScript a state object and its arrays are reached by reference, and
  \<open>performAction\<close> writes into the arrays of the copy that \<open>cloneState\<close> made. Whether
  the state it was given is left alone depends on which array is which, so here the
  two functions are modelled once more on a store: every state object, every array of
  stacks (\<open>string[][]\<close>, holding the references of its rows) and every row
  (\<open>string[]\<close>) sits at a reference, a natural number, and \<open>lim\<close> is the next reference
  not yet in use. \<open>new\<close>, \<open>[]\<close> and \<open>slice()\<close> take the reference \<open>lim\<close>.
\<close>

record StateObject =
  objArm :: int
  objHolding :: val
  objStacks :: nat

record Store =
  stateObjects :: "nat \<Rightarrow> StateObject"
  stackArrays :: "nat \<Rightarrow> nat list"
  rowArrays :: "nat \<Rightarrow> val list"
  lim :: nat

text \<open>
  The loop of \<open>cloneState\<close>, over the indices of \<open>s.stacks\<close> (at the reference \<open>src\<close>):
  \<open>rs.push(s.stacks[i].slice())\<close>.
\<close>

fun cloneLoop :: "nat \<Rightarrow> nat \<Rightarrow> nat list \<Rightarrow> Store \<Rightarrow> Store" where
  "cloneLoop src rs [] h = h"
| "cloneLoop src rs (i # idx) h =
     (let copy = lim h;
          h1 = h\<lparr>rowArrays := (rowArrays h)(copy := rowArrays h (stackArrays h src ! i)),
                 lim := lim h + 1\<rparr>;
          h2 = h1\<lparr>stackArrays := (stackArrays h1)(rs := stackArrays h1 rs @ [copy])\<rparr>
      in cloneLoop src rs idx h2)"

text \<open>\<open>cloneState\<close> on the store: the reference of the new state object, and the store.\<close>

definition cloneStateH :: "nat \<Rightarrow> Store \<Rightarrow> nat \<times> Store" where
  "cloneStateH s h =
     (let rs = lim h;
          h1 = h\<lparr>stackArrays := (stackArrays h)(rs := []), lim := lim h + 1\<rparr>;
          src = objStacks (stateObjects h1 s);
          h2 = cloneLoop src rs [0 ..< length (stackArrays h1 src)] h1;
          new = lim h2;
          h3 = h2\<lparr>stateObjects := (stateObjects h2)
                       (new := \<lparr>objArm = objArm (stateObjects h2 s),
                                 objHolding = objHolding (stateObjects h2 s),
                                 objStacks = rs\<rparr>),
                 lim := lim h2 + 1\<rparr>
      in (new, h3))"

text \<open>
  \<open>performAction\<close> on the store, the references of the states in place of the states.
\<close>

definition performActionH :: "string \<Rightarrow> nat \<Rightarrow> Store \<Rightarrow> (error + string \<times> nat) \<times> Store" where
  "performActionH action state h =
     (case cloneStateH state h of
        (newState, h1) \<Rightarrow>
          if action = ''l'' then
            (Inr (action, newState),
             h1\<lparr>stateObjects := (stateObjects h1)
                    (newState := (stateObjects h1 newState)
                                   \<lparr>objArm := objArm (stateObjects h1 state) - 1\<rparr>)\<rparr>)
          else if action = ''r'' then
            (Inr (action, newState),
             h1\<lparr>stateObjects := (stateObjects h1)
                    (newState := (stateObjects h1 newState)
                                   \<lparr>objArm := objArm (stateObjects h1 state) + 1\<rparr>)\<rparr>)
          else if action = ''p'' then
            (let n = stateObjects h1 newState; cols = stackArrays h1 (objStacks n) in
             if 0 \<le> objArm n \<and> objArm n < int (length cols) then
               (let row = cols ! nat (objArm n); st = rowArrays h1 row;
                    h2 = h1\<lparr>rowArrays := (rowArrays h1)(row := butlast st)\<rparr>
                in (Inr (action, newState),
                    h2\<lparr>stateObjects := (stateObjects h2)
                           (newState := (stateObjects h2 newState)
                              \<lparr>objHolding := (if st = [] then Undefined else last st)\<rparr>)\<rparr>))
             else (Inl TypeError, h1))
          else if action = ''d'' then
            (let n = stateObjects h1 newState; cols = stackArrays h1 (objStacks n) in
             if 0 \<le> objArm n \<and> objArm n < int (length cols) then
               (let row = cols ! nat (objArm n); st = rowArrays h1 row;
                    h2 = h1\<lparr>rowArrays := (rowArrays h1)(row := st @ [objHolding n])\<rparr>
                in (Inr (action, newState),
                    h2\<lparr>stateObjects := (stateObjects h2)
                           (newState := (stateObjects h2 newState)\<lparr>objHolding := Null\<rparr>)\<rparr>))
             else (Inl TypeError, h1))
          else (Inl (PlannerError (''ERROR: unknown action '' @ action)), h1))"

text \<open>The state that a reference denotes in a store.\<close>

definition stateAt :: "Store \<Rightarrow> nat \<Rightarrow> State" where
  "stateAt h s =
     \<lparr>arm = objArm (stateObjects h s), holding = objHolding (stateObjects h s),
      stacks = map (rowArrays h) (stackArrays h (objStacks (stateObjects h s)))\<rparr>"

text \<open>
  A state object that exists in the store: its reference, the reference of its array of
  stacks and the references of its rows are all in use.
\<close>

definition present :: "Store \<Rightarrow> nat \<Rightarrow> bool" where
  "present h s \<longleftrightarrow>
     s < lim h \<and> objStacks (stateObjects h s) < lim h \<and>
     (\<forall>r \<in> set (stackArrays h (objStacks (stateObjects h s))). r < lim h)"

section \<open>The plan driver\<close>

text \<open>
  \<open>WorldState\<close> (declared in \<open>World.ts\<close>): the arm, the held object and the stacks, as
  in a search state, and the dictionary of the objects.
\<close>

record WorldState = State +
  objects :: "string \<rightharpoonup> ObjectDefinition"

text \<open>
  An interpretation record. \<open>plan\<close> casts each \<open>Interpreter.Result\<close> to a
  \<open>Planner.Result\<close> and assigns its \<open>plan\<close> field, so one record type serves for
  both, the field being \<open>None\<close> as long as it was never assigned. Of the fields of
  \<open>Interpreter.Result\<close> only \<open>intp\<close> is read in \<open>Planner.ts\<close>.
\<close>

record Result =
  intp :: "Literal list list"
  plan_field :: "string list option"

text \<open>
  What the module can write: the interpretation records, which JavaScript passes by
  reference (a reference is a natural number here, and \<open>records\<close> gives the record it
  points to), and the module variable \<open>worldDictionary\<close>, \<open>null\<close> at first.
\<close>

record Memory =
  records :: "nat \<Rightarrow> Result"
  worldDictionary :: "(string \<rightharpoonup> ObjectDefinition) option"

text \<open>
  The external collaborators of the module, none of them among the sources at hand:
  \<open>Astar.astar\<close>, which returns a path of labels or throws,
  \<open>Heuristics.computeHeuristicFunction\<close>, \<open>Heuristics.computeObjectPosition\<close> and
  \<open>Interpreter.canSupport\<close>. They are parameters of the driver.
\<close>

record Collaborators =
  astar :: "(State \<Rightarrow> error + (string \<times> State) list) \<Rightarrow> (State \<Rightarrow> State \<Rightarrow> int) \<Rightarrow>
            (State \<Rightarrow> int) \<Rightarrow> State \<Rightarrow> (State \<Rightarrow> error + bool) \<Rightarrow> bool \<Rightarrow> nat \<Rightarrow>
            error + string list"
  computeHeuristicFunction :: "Literal list list \<Rightarrow> State \<Rightarrow> int"
  computeObjectPosition :: "State \<Rightarrow> val \<Rightarrow> ObjectPosition"
  interpreterCanSupport :: "property \<Rightarrow> property \<Rightarrow> bool"

text \<open>\<open>cost\<close> (lines 64 to 66).\<close>

definition cost :: "State \<Rightarrow> State \<Rightarrow> int" where
  "cost a b = 1"

text \<open>
  \<open>planInterpretation\<close> (lines 48 to 62). The callback \<open>neighbours\<close> reads the module
  variable when the search calls it, which is after the assignment. \<open>plan.shift()\<close>
  removes the first element and does nothing to an empty array. The call of
  \<open>console.log\<close> is left out.
\<close>

definition planInterpretation ::
  "Collaborators \<Rightarrow> Literal list list \<Rightarrow> WorldState \<Rightarrow> Memory \<Rightarrow> (error + string list) \<times> Memory" where
  "planInterpretation ext intprt state m =
     (let m1 = m\<lparr>worldDictionary := Some (objects state)\<rparr>;
          goal = computeGoalFunction (computeObjectPosition ext) intprt;
          heur = computeHeuristicFunction ext intprt;
          start = \<lparr>arm = arm state, holding = holding state, stacks = stacks state\<rparr>
      in (ebind (astar ext (neighbours (interpreterCanSupport ext) (worldDictionary m1))
                   cost heur start goal True 10000)
            (\<lambda>path. Inr (tl path)),
          m1))"

text \<open>
  The \<open>forEach\<close> loop of \<open>plan\<close> (lines 14 to 18), with the array \<open>plans\<close> as an
  accumulator. An exception leaves the loop; what was written before it stays written.
\<close>

fun forEachInterpretation ::
  "Collaborators \<Rightarrow> WorldState \<Rightarrow> nat list \<Rightarrow> nat list \<Rightarrow> Memory \<Rightarrow> (error + nat list) \<times> Memory" where
  "forEachInterpretation ext currentState [] plans m = (Inr plans, m)"
| "forEachInterpretation ext currentState (intprt # rest) plans m =
     (case planInterpretation ext (intp (records m intprt)) currentState m of
        (Inl e, m1) \<Rightarrow> (Inl e, m1)
      | (Inr p, m1) \<Rightarrow>
          forEachInterpretation ext currentState rest (plans @ [intprt])
            (m1\<lparr>records := (records m1)(intprt := (records m1 intprt)\<lparr>plan_field := Some p\<rparr>)\<rparr>))"

text \<open>\<open>plan\<close> (lines 11 to 25): the references of the records it returns, or the exception.\<close>

definition plan ::
  "Collaborators \<Rightarrow> nat list \<Rightarrow> WorldState \<Rightarrow> Memory \<Rightarrow> (error + nat list) \<times> Memory" where
  "plan ext interpretations currentState m =
     (case forEachInterpretation ext currentState interpretations [] m of
        (Inl e, m1) \<Rightarrow> (Inl e, m1)
      | (Inr plans, m1) \<Rightarrow>
          if length plans \<noteq> 0 then (Inr plans, m1)
          else (Inl (PlannerError ''Found no plans''), m1))"

text \<open>
  A position table for the two-column world of the specification's scenario: column 0
  holds \<open>a\<close> with \<open>b\<close> on top, \<open>c\<close> is in the gripper. It serves as a concrete instance
  of the parameter \<open>cop\<close> in the examples below.
\<close>

definition columnPos :: "int \<Rightarrow> int \<Rightarrow> ObjectPosition" where
  "columnPos c h = \<lparr>isHeld = False, isFloor = False, stackNo = c, heightNo = h\<rparr>"

definition scenarioPosition :: "State \<Rightarrow> val \<Rightarrow> ObjectPosition" where
  "scenarioPosition s v =
     (if v = Str ''floor'' then \<lparr>isHeld = False, isFloor = True, stackNo = - 1, heightNo = - 1\<rparr>
      else if v = Str ''c'' then \<lparr>isHeld = True, isFloor = False, stackNo = - 1, heightNo = - 1\<rparr>
      else if v = Str ''a'' then columnPos 0 0
      else if v = Str ''b'' then columnPos 0 1
      else columnPos 1 0)"

definition scenarioState :: State where
  "scenarioState = \<lparr>arm = 0, holding = Str ''c'', stacks = [[Str ''a'', Str ''b''], [Str ''d'']]\<rparr>"

text \<open>
  The start state of the specification's scenario (column 0 is \<open>[a, b]\<close>, column 1 is
  empty, the gripper is at column 0 and holds nothing), a dictionary for it, and an
  instance of the external support check: anything small can be put on anything, and
  anything can be put on something large.
\<close>

definition scenarioStart :: State where
  "scenarioStart = \<lparr>arm = 0, holding = Null, stacks = [[Str ''a'', Str ''b''], []]\<rparr>"

definition scenarioObjects :: "string \<rightharpoonup> ObjectDefinition" where
  "scenarioObjects =
     [''a'' \<mapsto> \<lparr>form = ''box'', size = ''large'', color = ''red''\<rparr>,
      ''b'' \<mapsto> \<lparr>form = ''brick'', size = ''small'', color = ''blue''\<rparr>,
      ''c'' \<mapsto> \<lparr>form = ''ball'', size = ''small'', color = ''white''\<rparr>,
      ''d'' \<mapsto> \<lparr>form = ''table'', size = ''large'', color = ''green''\<rparr>]"

definition scenarioSupport :: "property \<Rightarrow> property \<Rightarrow> bool" where
  "scenarioSupport objA objB =
     (case (objA, objB) of
        (OwnDefinition x, OwnDefinition y) \<Rightarrow> size x = ''small'' \<or> size y = ''large''
      | _ \<Rightarrow> False)"

text \<open>
  Two instances of the external search for the examples: a search that looks one
  transition ahead. It returns the path to the start state or to the first neighbour
  that satisfies the goal; when there is none, the first instance throws and the
  second returns an empty path.
\<close>

fun firstGoal :: "(State \<Rightarrow> error + bool) \<Rightarrow> (string \<times> State) list \<Rightarrow> error + string option" where
  "firstGoal goal [] = Inr None"
| "firstGoal goal ((a, s) # ns) =
     ebind (goal s) (\<lambda>found. if found then Inr (Some a) else firstGoal goal ns)"

definition oneStepSearch ::
  "bool \<Rightarrow> (State \<Rightarrow> error + (string \<times> State) list) \<Rightarrow> (State \<Rightarrow> State \<Rightarrow> int) \<Rightarrow>
   (State \<Rightarrow> int) \<Rightarrow> State \<Rightarrow> (State \<Rightarrow> error + bool) \<Rightarrow> bool \<Rightarrow> nat \<Rightarrow> error + string list" where
  "oneStepSearch throwing nbs c h start goal optimal budget =
     ebind (goal start)
       (\<lambda>found. if found then Inr [''start'']
          else ebind (nbs start)
            (\<lambda>ns. ebind (firstGoal goal ns)
               (\<lambda>r. case r of
                       Some a \<Rightarrow> Inr [''start'', a]
                     | None \<Rightarrow> if throwing then Inl (ExternalError ''no path found'')
                               else Inr [])))"

definition scenarioCollaborators :: "bool \<Rightarrow> Collaborators" where
  "scenarioCollaborators throwing =
     \<lparr>astar = oneStepSearch throwing,
      computeHeuristicFunction = (\<lambda>intprt s. 0),
      computeObjectPosition = scenarioPosition,
      interpreterCanSupport = scenarioSupport\<rparr>"

text \<open>
  The world of the scenario, and a memory with two interpretation records:
  record 0 asks for \<open>holding(a)\<close>, every other record for \<open>holding(b)\<close>.
\<close>

definition scenarioWorld :: WorldState where
  "scenarioWorld =
     \<lparr>arm = 0, holding = Null, stacks = [[Str ''a'', Str ''b''], []], objects = scenarioObjects\<rparr>"

definition scenarioMemory :: Memory where
  "scenarioMemory =
     \<lparr>records = (\<lambda>r. if r = 0 then \<lparr>intp = [[\<lparr>pol = True, rel = ''holding'', args = [''a'']\<rparr>]],
                                      plan_field = None\<rparr>
                     else \<lparr>intp = [[\<lparr>pol = True, rel = ''holding'', args = [''b'']\<rparr>]],
                           plan_field = None\<rparr>),
      worldDictionary = None\<rparr>"

text \<open>
  The start state of the scenario in a store: the state object at reference 0, its
  array of stacks at 0 with the rows at 0 and 1.
\<close>

definition scenarioStore :: Store where
  "scenarioStore =
     \<lparr>stateObjects = (\<lambda>r. \<lparr>objArm = 0, objHolding = Null, objStacks = 0\<rparr>),
      stackArrays = (\<lambda>r. if r = 0 then [0, 1] else []),
      rowArrays = (\<lambda>r. if r = 0 then [Str ''a'', Str ''b''] else []),
      lim = 2\<rparr>"

section \<open>Properties of the relation evaluator\<close>

text \<open>
  Claim C3. \<open>heightDifference\<close> follows the stated algorithm, in this order: when either
  operand is held the result is \<open>-1\<close>; otherwise, when \<open>above\<close> is the floor, a
  \<open>Planner.Error\<close> is thrown and no value is returned; otherwise, when \<open>below\<close> is the
  floor, the result is the height of \<open>above\<close> plus one; otherwise, when both are in the
  same column, the result is the signed difference of the heights; otherwise it is \<open>-1\<close>.
\<close>

theorem heightDifference_algorithm:
  fixes cop :: "State \<Rightarrow> val \<Rightarrow> ObjectPosition" and s aboveObj belowObj
  defines "a \<equiv> cop s aboveObj" and "b \<equiv> cop s belowObj"
  shows "(isHeld a \<or> isHeld b \<longrightarrow> heightDifference cop s aboveObj belowObj = Inr (- 1))
       \<and> (\<not> isHeld a \<and> \<not> isHeld b \<and> isFloor a \<longrightarrow>
            (\<exists>msg. heightDifference cop s aboveObj belowObj = Inl (PlannerError msg)))
       \<and> (\<not> isHeld a \<and> \<not> isHeld b \<and> \<not> isFloor a \<and> isFloor b \<longrightarrow>
            heightDifference cop s aboveObj belowObj = Inr (heightNo a + 1))
       \<and> (\<not> isHeld a \<and> \<not> isHeld b \<and> \<not> isFloor a \<and> \<not> isFloor b \<and> stackNo a = stackNo b \<longrightarrow>
            heightDifference cop s aboveObj belowObj = Inr (heightNo a - heightNo b))
       \<and> (\<not> isHeld a \<and> \<not> isHeld b \<and> \<not> isFloor a \<and> \<not> isFloor b \<and> stackNo a \<noteq> stackNo b \<longrightarrow>
            heightDifference cop s aboveObj belowObj = Inr (- 1))"
  unfolding a_def b_def heightDifference_def Let_def by simp

theorem heightDifference_algorithm_witness:
  "heightDifference scenarioPosition scenarioState (Str ''c'') (Str ''a'') = Inr (- 1)
   \<and> (\<exists>msg. heightDifference scenarioPosition scenarioState (Str ''floor'') (Str ''a'')
              = Inl (PlannerError msg))
   \<and> heightDifference scenarioPosition scenarioState (Str ''b'') (Str ''floor'') = Inr 2
   \<and> heightDifference scenarioPosition scenarioState (Str ''a'') (Str ''b'') = Inr (- 1)
   \<and> heightDifference scenarioPosition scenarioState (Str ''b'') (Str ''a'') = Inr 1
   \<and> heightDifference scenarioPosition scenarioState (Str ''d'') (Str ''a'') = Inr (- 1)"
  using heightDifference_algorithm [of scenarioPosition scenarioState "Str ''c''" "Str ''a''"]
        heightDifference_algorithm [of scenarioPosition scenarioState "Str ''floor''" "Str ''a''"]
        heightDifference_algorithm [of scenarioPosition scenarioState "Str ''b''" "Str ''floor''"]
        heightDifference_algorithm [of scenarioPosition scenarioState "Str ''a''" "Str ''b''"]
        heightDifference_algorithm [of scenarioPosition scenarioState "Str ''b''" "Str ''a''"]
        heightDifference_algorithm [of scenarioPosition scenarioState "Str ''d''" "Str ''a''"]
  by (simp add: scenarioPosition_def columnPos_def)

text \<open>
  Claim C8. A literal whose relation tag is none of \<open>holding\<close>, \<open>ontop\<close>, \<open>inside\<close>,
  \<open>above\<close> makes \<open>testAtom\<close> throw a \<open>Planner.Error\<close> whose message ends with the tag; no
  truth value is returned, whatever the state, the polarity and the operands.
\<close>

theorem testAtom_unimplemented_relation:
  assumes "rel atom \<notin> {''holding'', ''ontop'', ''inside'', ''above''}"
  shows "testAtom cop s atom =
           Inl (PlannerError (''!!! Unimplemented relation in testAtom: '' @ rel atom))
         \<and> (\<forall>t. testAtom cop s atom \<noteq> Inr t)"
  using assms by (simp add: testAtom_def)

theorem testAtom_unimplemented_relation_witness:
  "testAtom scenarioPosition scenarioState \<lparr>pol = True, rel = ''beside'', args = [''a'', ''b'']\<rparr>
     = Inl (PlannerError ''!!! Unimplemented relation in testAtom: beside'')"
  using testAtom_unimplemented_relation
          [of "\<lparr>pol = True, rel = ''beside'', args = [''a'', ''b'']\<rparr>" scenarioPosition scenarioState]
  by simp


lemma ebind_simps: "ebind (Inl e) f = Inl e" "ebind (Inr x) f = f x"
  by (simp_all add: ebind_def)

lemma testConjunctiveClause_total:
  assumes "\<forall>l \<in> set c. \<exists>t. testAtom cop s l = Inr t"
  shows "testConjunctiveClause cop s c = Inr (\<forall>l \<in> set c. testAtom cop s l = Inr True)"
  using assms by (induction c) (auto simp: ebind_simps)

lemma computeGoalFunction_total:
  assumes "\<forall>c \<in> set intprt. \<exists>t. testConjunctiveClause cop s c = Inr t"
  shows "computeGoalFunction cop intprt s
           = Inr (\<exists>c \<in> set intprt. testConjunctiveClause cop s c = Inr True)"
  using assms by (induction intprt) (auto simp: ebind_simps)

lemma testConjunctiveClause_True_iff:
  "testConjunctiveClause cop s c = Inr True \<longleftrightarrow> (\<forall>l \<in> set c. testAtom cop s l = Inr True)"
proof (induction c)
  case Nil
  then show ?case by simp
next
  case (Cons atom c)
  then show ?case by (cases "testAtom cop s atom") (auto simp: ebind_simps)
qed

lemma testConjunctiveClause_first:
  "testConjunctiveClause cop s c =
     (case dropWhile (\<lambda>l. testAtom cop s l = Inr True) c of
        [] \<Rightarrow> Inr True
      | l # rest \<Rightarrow> testAtom cop s l)"
proof (induction c)
  case Nil
  then show ?case by simp
next
  case (Cons atom c)
  show ?case
  proof (cases "testAtom cop s atom")
    case (Inl e)
    then show ?thesis by (simp add: ebind_simps)
  next
    case (Inr t)
    with Cons show ?thesis by (cases t) (simp_all add: ebind_simps)
  qed
qed

lemma computeGoalFunction_first:
  "computeGoalFunction cop intprt s =
     (case dropWhile (\<lambda>c. testConjunctiveClause cop s c = Inr False) intprt of
        [] \<Rightarrow> Inr False
      | c # rest \<Rightarrow> testConjunctiveClause cop s c)"
proof (induction intprt)
  case Nil
  then show ?case by simp
next
  case (Cons c intprt)
  show ?case
  proof (cases "testConjunctiveClause cop s c")
    case (Inl e)
    then show ?thesis by (simp add: ebind_simps)
  next
    case (Inr t)
    with Cons show ?thesis by (cases t) (simp_all add: ebind_simps)
  qed
qed

lemma computeGoalFunction_True_iff:
  "computeGoalFunction cop intprt s = Inr True \<longleftrightarrow>
     (\<exists>pre c post. intprt = pre @ c # post
        \<and> (\<forall>c' \<in> set pre. testConjunctiveClause cop s c' = Inr False)
        \<and> testConjunctiveClause cop s c = Inr True)"
proof (induction intprt)
  case Nil
  then show ?case by simp
next
  case (Cons c intprt)
  show ?case
  proof (cases "testConjunctiveClause cop s c")
    case (Inl e)
    then show ?thesis by (auto simp: ebind_simps Cons_eq_append_conv)
  next
    case (Inr t)
    show ?thesis
    proof (cases t)
      case True
      with Inr have "c # intprt = [] @ c # intprt \<and> (\<forall>c' \<in> set []. testConjunctiveClause cop s c' = Inr False)
          \<and> testConjunctiveClause cop s c = Inr True" by simp
      then have "\<exists>pre d post. c # intprt = pre @ d # post
        \<and> (\<forall>c' \<in> set pre. testConjunctiveClause cop s c' = Inr False)
        \<and> testConjunctiveClause cop s d = Inr True" by blast
      with Inr True show ?thesis by (simp add: ebind_simps)
    next
      case False
      with Inr have step: "computeGoalFunction cop (c # intprt) s = computeGoalFunction cop intprt s"
        by (simp add: ebind_simps)
      have "(\<exists>pre d post. c # intprt = pre @ d # post
        \<and> (\<forall>c' \<in> set pre. testConjunctiveClause cop s c' = Inr False)
        \<and> testConjunctiveClause cop s d = Inr True)
        \<longleftrightarrow> (\<exists>pre d post. intprt = pre @ d # post
        \<and> (\<forall>c' \<in> set pre. testConjunctiveClause cop s c' = Inr False)
        \<and> testConjunctiveClause cop s d = Inr True)" (is "?L \<longleftrightarrow> ?R")
      proof
        assume ?L
        then obtain pre d post where e: "c # intprt = pre @ d # post"
          and f: "\<forall>c' \<in> set pre. testConjunctiveClause cop s c' = Inr False"
          and t: "testConjunctiveClause cop s d = Inr True" by blast
        from e t Inr False obtain pre' where "pre = c # pre'" "intprt = pre' @ d # post"
          by (cases pre) auto
        with f t show ?R by auto
      next
        assume ?R
        then obtain pre d post where e: "intprt = pre @ d # post"
          and f: "\<forall>c' \<in> set pre. testConjunctiveClause cop s c' = Inr False"
          and t: "testConjunctiveClause cop s d = Inr True" by blast
        from e have "c # intprt = (c # pre) @ d # post" by simp
        moreover from f Inr False
        have "\<forall>c' \<in> set (c # pre). testConjunctiveClause cop s c' = Inr False" by simp
        ultimately show ?L using t by blast
      qed
      with step Cons.IH show ?thesis by simp
    qed
  qed
qed

lemma computeGoalFunction_False_iff:
  "computeGoalFunction cop intprt s = Inr False \<longleftrightarrow>
     (\<forall>c \<in> set intprt. testConjunctiveClause cop s c = Inr False)"
proof (induction intprt)
  case Nil
  then show ?case by simp
next
  case (Cons c intprt)
  then show ?case by (cases "testConjunctiveClause cop s c") (auto simp: ebind_simps)
qed

text \<open>
  Claim C4, as stated, fails for the goal predicate: a goal whose first clause has a
  literal with an unsupported relation throws, although its second clause holds in the
  state. The goal predicate does not hold there, while one of its clauses does.
\<close>

theorem goal_throws_counterexample:
  "testConjunctiveClause scenarioPosition scenarioState
     [\<lparr>pol = True, rel = ''holding'', args = [''c'']\<rparr>] = Inr True
   \<and> computeGoalFunction scenarioPosition
       [[\<lparr>pol = True, rel = ''beside'', args = [''a'', ''b'']\<rparr>],
        [\<lparr>pol = True, rel = ''holding'', args = [''c'']\<rparr>]] scenarioState
     = Inl (PlannerError ''!!! Unimplemented relation in testAtom: beside'')"
  by (simp add: testAtom_def ret_def argAt_def ebind_simps scenarioState_def)

text \<open>
  Claim C4, amended. In every state: a \<open>holding\<close> literal on \<open>x\<close> is true iff the
  gripper holds \<open>x\<close>; an \<open>inside\<close> literal is evaluated as the \<open>ontop\<close> literal on the
  same operands, and both are true iff the height difference of \<open>x\<close> above \<open>y\<close> is
  exactly 1; an \<open>above\<close> literal is true iff that difference is positive; a literal of
  polarity false has the negated value; when the height difference throws, the literal
  throws the same error. A clause evaluates to true iff every literal of it does; its
  value is that of its first literal that is not true, and true when there is none.
  The goal predicate tests the clauses in order and its value is that of the first
  clause that is not false (true, or the error thrown), and false when there is none:
  it holds iff some clause holds and every clause before that one is false; it is false
  iff every clause is false; and when no clause throws it holds iff at least one
  clause holds.
\<close>

theorem testAtom_and_goal_semantics:
  fixes cop :: "State \<Rightarrow> val \<Rightarrow> ObjectPosition"
  shows "testAtom cop s \<lparr>pol = p, rel = ''holding'', args = x # xs\<rparr>
           = Inr (if p then holding s = Str x else holding s \<noteq> Str x)
       \<and> testAtom cop s \<lparr>pol = p, rel = ''inside'', args = x # y # xs\<rparr>
           = testAtom cop s \<lparr>pol = p, rel = ''ontop'', args = x # y # xs\<rparr>
       \<and> (heightDifference cop s (Str x) (Str y) = Inr d \<longrightarrow>
            testAtom cop s \<lparr>pol = p, rel = ''ontop'', args = x # y # xs\<rparr>
              = Inr (if p then d = 1 else d \<noteq> 1))
       \<and> (heightDifference cop s (Str x) (Str y) = Inr d \<longrightarrow>
            testAtom cop s \<lparr>pol = p, rel = ''above'', args = x # y # xs\<rparr>
              = Inr (if p then 0 < d else \<not> 0 < d))
       \<and> (heightDifference cop s (Str x) (Str y) = Inl e \<longrightarrow>
            testAtom cop s \<lparr>pol = p, rel = ''ontop'', args = x # y # xs\<rparr> = Inl e
            \<and> testAtom cop s \<lparr>pol = p, rel = ''above'', args = x # y # xs\<rparr> = Inl e)
       \<and> (testConjunctiveClause cop s c = Inr True
            \<longleftrightarrow> (\<forall>l \<in> set c. testAtom cop s l = Inr True))
       \<and> testConjunctiveClause cop s c
           = (case dropWhile (\<lambda>l. testAtom cop s l = Inr True) c of
                [] \<Rightarrow> Inr True
              | l # rest \<Rightarrow> testAtom cop s l)
       \<and> ((\<forall>l \<in> set c. \<exists>t. testAtom cop s l = Inr t) \<longrightarrow>
            testConjunctiveClause cop s c = Inr (\<forall>l \<in> set c. testAtom cop s l = Inr True))
       \<and> computeGoalFunction cop intprt s
           = (case dropWhile (\<lambda>c. testConjunctiveClause cop s c = Inr False) intprt of
                [] \<Rightarrow> Inr False
              | c # rest \<Rightarrow> testConjunctiveClause cop s c)
       \<and> (computeGoalFunction cop intprt s = Inr True
            \<longleftrightarrow> (\<exists>pre c post. intprt = pre @ c # post
                   \<and> (\<forall>c' \<in> set pre. testConjunctiveClause cop s c' = Inr False)
                   \<and> testConjunctiveClause cop s c = Inr True))
       \<and> (computeGoalFunction cop intprt s = Inr False
            \<longleftrightarrow> (\<forall>c \<in> set intprt. testConjunctiveClause cop s c = Inr False))
       \<and> ((\<forall>c \<in> set intprt. \<exists>t. testConjunctiveClause cop s c = Inr t) \<longrightarrow>
            computeGoalFunction cop intprt s
              = Inr (\<exists>c \<in> set intprt. testConjunctiveClause cop s c = Inr True))"
proof -
  have atoms: "testAtom cop s \<lparr>pol = p, rel = ''holding'', args = x # xs\<rparr>
           = Inr (if p then holding s = Str x else holding s \<noteq> Str x)
       \<and> testAtom cop s \<lparr>pol = p, rel = ''inside'', args = x # y # xs\<rparr>
           = testAtom cop s \<lparr>pol = p, rel = ''ontop'', args = x # y # xs\<rparr>
       \<and> (heightDifference cop s (Str x) (Str y) = Inr d \<longrightarrow>
            testAtom cop s \<lparr>pol = p, rel = ''ontop'', args = x # y # xs\<rparr>
              = Inr (if p then d = 1 else d \<noteq> 1))
       \<and> (heightDifference cop s (Str x) (Str y) = Inr d \<longrightarrow>
            testAtom cop s \<lparr>pol = p, rel = ''above'', args = x # y # xs\<rparr>
              = Inr (if p then 0 < d else \<not> 0 < d))
       \<and> (heightDifference cop s (Str x) (Str y) = Inl e \<longrightarrow>
            testAtom cop s \<lparr>pol = p, rel = ''ontop'', args = x # y # xs\<rparr> = Inl e
            \<and> testAtom cop s \<lparr>pol = p, rel = ''above'', args = x # y # xs\<rparr> = Inl e)"
    by (simp add: testAtom_def ret_def argAt_def ebind_simps)
  note clause = testConjunctiveClause_True_iff [of cop s c]
    testConjunctiveClause_first [of cop s c]
    testConjunctiveClause_total [of c cop s]
  note goal = computeGoalFunction_first [of cop intprt s]
    computeGoalFunction_True_iff [of cop intprt s]
    computeGoalFunction_False_iff [of cop intprt s]
    computeGoalFunction_total [of intprt cop s]
  from atoms clause goal show ?thesis by blast
qed

theorem testAtom_and_goal_semantics_witness:
  "testAtom scenarioPosition scenarioState \<lparr>pol = True, rel = ''ontop'', args = [''b'', ''a'']\<rparr>
     = Inr True
   \<and> testAtom scenarioPosition scenarioState \<lparr>pol = True, rel = ''above'', args = [''b'', ''a'']\<rparr>
     = Inr True
   \<and> testConjunctiveClause scenarioPosition scenarioState
       [\<lparr>pol = True, rel = ''holding'', args = [''c'']\<rparr>,
        \<lparr>pol = True, rel = ''ontop'', args = [''b'', ''a'']\<rparr>] = Inr True
   \<and> computeGoalFunction scenarioPosition
       [[\<lparr>pol = True, rel = ''holding'', args = [''a'']\<rparr>],
        [\<lparr>pol = True, rel = ''ontop'', args = [''b'', ''a'']\<rparr>]] scenarioState = Inr True"
  using testAtom_and_goal_semantics
          [where cop = scenarioPosition and s = scenarioState and p = True and x = "''b''"
             and y = "''a''" and xs = "[]" and d = 1
             and c = "[\<lparr>pol = True, rel = ''holding'', args = [''c'']\<rparr>,
                       \<lparr>pol = True, rel = ''ontop'', args = [''b'', ''a'']\<rparr>]"
             and intprt = "[[\<lparr>pol = True, rel = ''holding'', args = [''a'']\<rparr>],
                            [\<lparr>pol = True, rel = ''ontop'', args = [''b'', ''a'']\<rparr>]]"]
  by (simp add: heightDifference_def scenarioPosition_def columnPos_def scenarioState_def
        testAtom_def ret_def argAt_def ebind_simps)

section \<open>Properties of the transition generator\<close>

lemma foldl_snoc: "foldl (\<lambda>rs row. rs @ [row]) acc xs = acc @ xs"
  by (induction xs arbitrary: acc) simp_all

lemma cloneState_same: "cloneState s = s"
  by (simp add: cloneState_def foldl_snoc)

lemma push_simps: "push r (Inl e) = Inl e" "push r (Inr n) = Inr (r @ [n])"
  by (simp_all add: push_def ebind_simps)

lemma performAction_l: "performAction ''l'' s = Inr (''l'', s\<lparr>arm := arm s - 1\<rparr>)"
  by (simp add: performAction_def cloneState_same)

lemma performAction_r: "performAction ''r'' s = Inr (''r'', s\<lparr>arm := arm s + 1\<rparr>)"
  by (simp add: performAction_def cloneState_same)

lemma performAction_p:
  "performAction ''p'' s =
     (case stackAt s of None \<Rightarrow> Inl TypeError
      | Some st \<Rightarrow> Inr (''p'', s\<lparr>stacks := (stacks s)[nat (arm s) := butlast st],
                                 holding := (if st = [] then Undefined else last st)\<rparr>))"
  by (simp add: performAction_def cloneState_same)

lemma performAction_d:
  "performAction ''d'' s =
     (case stackAt s of None \<Rightarrow> Inl TypeError
      | Some st \<Rightarrow> Inr (''d'', s\<lparr>stacks := (stacks s)[nat (arm s) := st @ [holding s]],
                                 holding := Null\<rparr>))"
  by (simp add: performAction_def cloneState_same)

lemma neighbours_no_stack:
  assumes "stackAt s = None"
  shows "neighbours ics wd s = Inl TypeError"
  using assms
  by (simp add: neighbours_def Let_def performAction_l performAction_r push_simps ebind_simps)

lemma neighbours_no_dictionary:
  assumes "stackAt s = Some st" and "\<not> looseNull (holding s)" and "st \<noteq> []"
  shows "neighbours ics None s = Inl TypeError"
  using assms
  by (simp add: neighbours_def Let_def performAction_l performAction_r push_simps ebind_simps
        canSupport_def)

lemma neighbours_list:
  assumes "stackAt s = Some st" and "wd \<noteq> None \<or> looseNull (holding s) \<or> st = []"
  shows "neighbours ics wd s = Inr
     ((if arm s > 0 then [(''l'', s\<lparr>arm := arm s - 1\<rparr>)] else []) @
      (if arm s < int (length (stacks s)) - 1 then [(''r'', s\<lparr>arm := arm s + 1\<rparr>)] else []) @
      (if looseNull (holding s) \<and> st \<noteq> []
       then [(''p'', s\<lparr>stacks := (stacks s)[nat (arm s) := butlast st], holding := last st\<rparr>)]
       else []) @
      (if \<not> looseNull (holding s) \<and> (st = [] \<or> canSupport ics wd (holding s) (last st) = Inr True)
       then [(''d'', s\<lparr>stacks := (stacks s)[nat (arm s) := st @ [holding s]], holding := Null\<rparr>)]
       else []))"
proof (cases "looseNull (holding s)")
  case True
  with assms(1) show ?thesis
    by (simp add: neighbours_def Let_def performAction_l performAction_r performAction_p
          push_simps ebind_simps)
next
  case False
  show ?thesis
  proof (cases "st = []")
    case True
    with False assms(1) show ?thesis
      by (simp add: neighbours_def Let_def performAction_l performAction_r performAction_d
            push_simps ebind_simps)
  next
    case nonempty: False
    with False assms(2) obtain d where "wd = Some d" by auto
    with False nonempty assms(1) show ?thesis
      by (simp add: neighbours_def Let_def performAction_l performAction_r performAction_d
            push_simps ebind_simps canSupport_def)
  qed
qed

lemma stackAt_Some:
  "stackAt s = Some st \<longleftrightarrow> 0 \<le> arm s \<and> arm s < int (length (stacks s)) \<and> st = stacks s ! nat (arm s)"
  by (auto simp: stackAt_def)

text \<open>
  Claim C2. For a state whose arm is over one of the columns, and with the dictionary
  in place, \<open>neighbours\<close> returns the legal transitions and nothing else, in the order
  left, right, pick-up, put-down: left iff \<open>arm > 0\<close> (the arm goes down by one), right
  iff \<open>arm < numStacks - 1\<close> (up by one), pick-up iff nothing is held and the stack under
  the arm is not empty (its top goes into the gripper), put-down iff something is held
  and the stack under the arm is empty or its top can support the held object (the
  object goes on top of the stack and the gripper is emptied).
\<close>

theorem neighbours_legal_actions:
  assumes "0 \<le> arm s" and "arm s < int (length (stacks s))" and "wd \<noteq> None"
  shows "neighbours ics wd s = Inr
     ((if arm s > 0 then [(''l'', s\<lparr>arm := arm s - 1\<rparr>)] else []) @
      (if arm s < int (length (stacks s)) - 1 then [(''r'', s\<lparr>arm := arm s + 1\<rparr>)] else []) @
      (if looseNull (holding s) \<and> stacks s ! nat (arm s) \<noteq> []
       then [(''p'', s\<lparr>stacks := (stacks s)[nat (arm s) := butlast (stacks s ! nat (arm s))],
                       holding := last (stacks s ! nat (arm s))\<rparr>)]
       else []) @
      (if \<not> looseNull (holding s) \<and>
          (stacks s ! nat (arm s) = [] \<or>
           canSupport ics wd (holding s) (last (stacks s ! nat (arm s))) = Inr True)
       then [(''d'', s\<lparr>stacks := (stacks s)[nat (arm s) := stacks s ! nat (arm s) @ [holding s]],
                       holding := Null\<rparr>)]
       else []))"
proof -
  from assms(1,2) have "stackAt s = Some (stacks s ! nat (arm s))"
    by (simp add: stackAt_Some)
  from neighbours_list [OF this] assms(3) show ?thesis by simp
qed

theorem neighbours_legal_actions_witness:
  "neighbours scenarioSupport (Some scenarioObjects) scenarioState
     = Inr [(''r'', scenarioState\<lparr>arm := 1\<rparr>),
            (''d'', \<lparr>arm = 0, holding = Null,
                     stacks = [[Str ''a'', Str ''b'', Str ''c''], [Str ''d'']]\<rparr>)]"
  using neighbours_legal_actions [of scenarioState "Some scenarioObjects" scenarioSupport]
  by (simp add: scenarioState_def canSupport_def readProperty_def scenarioObjects_def
        scenarioSupport_def)

text \<open>
  Claim C9. In a state that holds nothing and whose arm is over a non-empty column,
  picking up and then putting down again, with nothing in between, restores the
  stacks and the arm and leaves \<open>holding\<close> at \<open>null\<close>; so when \<open>holding\<close> was \<open>null\<close>
  (the value the code itself gives an empty gripper) the result is the state itself.
  The pick-up in between moves the top of the column into the gripper.
\<close>

theorem pick_up_then_put_down:
  assumes "looseNull (holding s)" and "0 \<le> arm s" and "arm s < int (length (stacks s))"
    and "stacks s ! nat (arm s) \<noteq> []"
  shows "performAction ''p'' s
           = Inr (''p'', s\<lparr>stacks := (stacks s)[nat (arm s) := butlast (stacks s ! nat (arm s))],
                           holding := last (stacks s ! nat (arm s))\<rparr>)
       \<and> ebind (performAction ''p'' s) (\<lambda>(a, s1). performAction ''d'' s1)
           = Inr (''d'', s\<lparr>holding := Null\<rparr>)
       \<and> (holding s = Null \<longrightarrow>
            ebind (performAction ''p'' s) (\<lambda>(a, s1). performAction ''d'' s1) = Inr (''d'', s))"
proof -
  let ?st = "stacks s ! nat (arm s)"
  have at: "stackAt s = Some ?st" using assms(2,3) by (simp add: stackAt_Some)
  have i: "nat (arm s) < length (stacks s)" using assms(2,3) by simp
  have restored: "(stacks s)[nat (arm s) := butlast ?st @ [last ?st]] = stacks s"
    using assms(4) by simp
  have pick: "performAction ''p'' s
           = Inr (''p'', s\<lparr>stacks := (stacks s)[nat (arm s) := butlast ?st], holding := last ?st\<rparr>)"
    using at assms(4) by (simp add: performAction_p)
  have both: "ebind (performAction ''p'' s) (\<lambda>(a, s1). performAction ''d'' s1)
           = Inr (''d'', s\<lparr>holding := Null\<rparr>)"
    using at i assms(2-4) restored by (simp add: pick performAction_d ebind_simps stackAt_def)
  have "holding s = Null \<longrightarrow> s\<lparr>holding := Null\<rparr> = s" by auto
  with pick both show ?thesis by simp
qed

theorem pick_up_then_put_down_witness:
  "performAction ''p'' scenarioStart
     = Inr (''p'', \<lparr>arm = 0, holding = Str ''b'', stacks = [[Str ''a''], []]\<rparr>)
   \<and> performAction ''d'' \<lparr>arm = 0, holding = Str ''b'', stacks = [[Str ''a''], []]\<rparr>
     = Inr (''d'', scenarioStart)
   \<and> ebind (performAction ''p'' scenarioStart) (\<lambda>(a, s1). performAction ''d'' s1)
     = Inr (''d'', scenarioStart)"
  using pick_up_then_put_down [of scenarioStart]
  by (simp add: scenarioStart_def performAction_p performAction_d stackAt_def ebind_simps)

subsection \<open>Every object stays in exactly one place\<close>

lemma sum_list_map_update:
  fixes f :: "'a \<Rightarrow> nat"
  assumes "i < length xs"
  shows "sum_list (map f (xs[i := y])) + f (xs ! i) = sum_list (map f xs) + f y"
  using assms by (induction xs arbitrary: i) (auto split: nat.splits)

lemma count_list_butlast:
  assumes "st \<noteq> []"
  shows "count_list (butlast st) v + (if last st = v then 1 else 0) = count_list st v"
  using assms by (induction st) auto

lemma occurrences_arm: "occurrences (s\<lparr>arm := k\<rparr>) x = occurrences s x"
  by (simp add: occurrences_def)

lemma occurrences_pick:
  assumes "looseNull (holding s)" and "stackAt s = Some st" and "st \<noteq> []"
  shows "occurrences (s\<lparr>stacks := (stacks s)[nat (arm s) := butlast st], holding := last st\<rparr>) x
           = occurrences s x"
proof -
  let ?f = "\<lambda>st. count_list st (Str x)"
  from assms(2) have i: "nat (arm s) < length (stacks s)" and st: "stacks s ! nat (arm s) = st"
    by (auto simp: stackAt_Some)
  from assms(1) have h: "holding s \<noteq> Str x" by auto
  have "sum_list (map ?f ((stacks s)[nat (arm s) := butlast st])) + ?f st
          = sum_list (map ?f (stacks s)) + ?f (butlast st)"
    using sum_list_map_update [OF i, of ?f "butlast st"] st by simp
  moreover have "?f (butlast st) + (if last st = Str x then 1 else 0) = ?f st"
    by (rule count_list_butlast [OF assms(3)])
  ultimately show ?thesis using h by (simp add: occurrences_def)
qed

lemma occurrences_drop:
  assumes "stackAt s = Some st"
  shows "occurrences (s\<lparr>stacks := (stacks s)[nat (arm s) := st @ [holding s]], holding := Null\<rparr>) x
           = occurrences s x"
proof -
  let ?f = "\<lambda>st. count_list st (Str x)"
  from assms have i: "nat (arm s) < length (stacks s)" and st: "stacks s ! nat (arm s) = st"
    by (auto simp: stackAt_Some)
  have "sum_list (map ?f ((stacks s)[nat (arm s) := st @ [holding s]])) + ?f st
          = sum_list (map ?f (stacks s)) + ?f (st @ [holding s])"
    using sum_list_map_update [OF i, of ?f "st @ [holding s]"] st by simp
  then show ?thesis by (simp add: occurrences_def)
qed

lemma neighbours_member:
  assumes "neighbours ics wd s = Inr ns" and "(a, s') \<in> set ns"
  shows "\<exists>st. stackAt s = Some st \<and>
           (s' = s\<lparr>arm := arm s - 1\<rparr> \<or> s' = s\<lparr>arm := arm s + 1\<rparr> \<or>
            (looseNull (holding s) \<and> st \<noteq> [] \<and>
             s' = s\<lparr>stacks := (stacks s)[nat (arm s) := butlast st], holding := last st\<rparr>) \<or>
            s' = s\<lparr>stacks := (stacks s)[nat (arm s) := st @ [holding s]], holding := Null\<rparr>)"
proof -
  from assms(1) obtain st where at: "stackAt s = Some st"
    using neighbours_no_stack [of s ics wd] by (cases "stackAt s") auto
  have ok: "wd \<noteq> None \<or> looseNull (holding s) \<or> st = []"
    using assms(1) neighbours_no_dictionary [OF at, of ics] by (cases wd) auto
  from assms neighbours_list [OF at ok, of ics]
  have "s' = s\<lparr>arm := arm s - 1\<rparr> \<or> s' = s\<lparr>arm := arm s + 1\<rparr> \<or>
        (looseNull (holding s) \<and> st \<noteq> [] \<and>
         s' = s\<lparr>stacks := (stacks s)[nat (arm s) := butlast st], holding := last st\<rparr>) \<or>
        s' = s\<lparr>stacks := (stacks s)[nat (arm s) := st @ [holding s]], holding := Null\<rparr>"
    by (auto split: if_splits)
  with at show ?thesis by blast
qed

lemma neighbours_occurrences:
  assumes "neighbours ics wd s = Inr ns" and "(a, s') \<in> set ns"
  shows "occurrences s' x = occurrences s x"
proof -
  from neighbours_member [OF assms] obtain st where at: "stackAt s = Some st"
    and cases: "s' = s\<lparr>arm := arm s - 1\<rparr> \<or> s' = s\<lparr>arm := arm s + 1\<rparr> \<or>
            (looseNull (holding s) \<and> st \<noteq> [] \<and>
             s' = s\<lparr>stacks := (stacks s)[nat (arm s) := butlast st], holding := last st\<rparr>) \<or>
            s' = s\<lparr>stacks := (stacks s)[nat (arm s) := st @ [holding s]], holding := Null\<rparr>"
    by blast
  from cases show ?thesis
    using occurrences_arm [where s = s and x = x] occurrences_pick [OF _ at, of x] occurrences_drop [OF at, of x]
    by metis
qed

text \<open>
  Claim C5. An object that is in exactly one place in the start state (in the gripper
  or at one position of one stack) is in exactly one place in every state reached
  from it by transitions that \<open>neighbours\<close> returned: it is never in two places and
  never lost.
\<close>

theorem placement_invariant:
  assumes "reachable ics wd s0 s" and "occurrences s0 x = 1"
  shows "occurrences s x = 1"
  using assms
  by (induction rule: reachable.induct) (simp_all add: neighbours_occurrences)


lemma scenario_reachable:
  "reachable scenarioSupport (Some scenarioObjects) scenarioStart
     \<lparr>arm = 0, holding = Str ''b'', stacks = [[Str ''a''], []]\<rparr>"
proof (rule reachable.step [OF reachable.start])
  show "neighbours scenarioSupport (Some scenarioObjects) scenarioStart
          = Inr [(''r'', scenarioStart\<lparr>arm := 1\<rparr>),
                 (''p'', \<lparr>arm = 0, holding = Str ''b'', stacks = [[Str ''a''], []]\<rparr>)]"
    using neighbours_list [of scenarioStart "[Str ''a'', Str ''b'']" "Some scenarioObjects"
                              scenarioSupport]
    by (simp add: scenarioStart_def stackAt_def)
  show "(''p'', \<lparr>arm = 0, holding = Str ''b'', stacks = [[Str ''a''], []]\<rparr>)
          \<in> set [(''r'', scenarioStart\<lparr>arm := 1\<rparr>),
                  (''p'', \<lparr>arm = 0, holding = Str ''b'', stacks = [[Str ''a''], []]\<rparr>)]"
    by simp
qed

theorem placement_invariant_witness:
  "occurrences scenarioStart ''b'' = 1
   \<and> occurrences \<lparr>arm = 0, holding = Str ''b'', stacks = [[Str ''a''], []]\<rparr> ''b'' = 1"
  using placement_invariant [OF scenario_reachable, of "''b''"]
  by (simp add: occurrences_def scenarioStart_def)


section \<open>Properties of the plan driver\<close>

lemma planInterpretation_memory:
  "snd (planInterpretation ext intprt cs m) = m\<lparr>worldDictionary := Some (objects cs)\<rparr>"
  by (simp add: planInterpretation_def Let_def)

lemma planInterpretation_result:
  "fst (planInterpretation ext intprt cs m) = fst (planInterpretation ext intprt cs m')"
  by (simp add: planInterpretation_def Let_def)

lemma forEach_Cons:
  "forEachInterpretation ext cs (i # ips) acc m =
     (case fst (planInterpretation ext (intp (records m i)) cs m) of
        Inl e \<Rightarrow> (Inl e, m\<lparr>worldDictionary := Some (objects cs)\<rparr>)
      | Inr p \<Rightarrow>
          forEachInterpretation ext cs ips (acc @ [i])
            (m\<lparr>worldDictionary := Some (objects cs),
               records := (records m)(i := (records m i)\<lparr>plan_field := Some p\<rparr>)\<rparr>))"
proof -
  obtain res m1 where pi: "planInterpretation ext (intp (records m i)) cs m = (res, m1)"
    by (cases "planInterpretation ext (intp (records m i)) cs m")
  then have m1: "m1 = m\<lparr>worldDictionary := Some (objects cs)\<rparr>"
    using planInterpretation_memory [of ext "intp (records m i)" cs m] by simp
  show ?thesis
    unfolding forEachInterpretation.simps pi by (cases res) (simp_all add: m1)
qed


lemma forEach_other_records:
  assumes "r \<notin> set ips"
  shows "records (snd (forEachInterpretation ext cs ips acc m)) r = records m r"
  using assms
  by (induction ips arbitrary: acc m)
     (simp_all add: forEach_Cons del: forEachInterpretation.simps(2) split: sum.splits)


text \<open>The outcome of the loop: all the references, or the first exception.\<close>

lemma forEach_Inr:
  assumes "fst (forEachInterpretation ext cs ips acc m) = Inr plans"
  shows "plans = acc @ ips"
  using assms
proof (induction ips arbitrary: acc m)
  case Nil
  then show ?case by simp
next
  case (Cons i ips)
  show ?case
  proof (cases "fst (planInterpretation ext (intp (records m i)) cs m)")
    case (Inl e)
    with Cons.prems show ?thesis by (simp add: forEach_Cons del: forEachInterpretation.simps(2))
  next
    case (Inr p)
    with Cons.prems have "plans = (acc @ [i]) @ ips"
      by (intro Cons.IH) (simp add: forEach_Cons del: forEachInterpretation.simps(2))
    then show ?thesis by simp
  qed
qed

lemma forEach_Inl:
  assumes "fst (forEachInterpretation ext cs ips acc m) = Inl e"
  shows "\<exists>i \<in> set ips. fst (planInterpretation ext (intp (records m i)) cs m) = Inl e"
  using assms
proof (induction ips arbitrary: acc m)
  case Nil
  then show ?case by simp
next
  case (Cons i ips)
  show ?case
  proof (cases "fst (planInterpretation ext (intp (records m i)) cs m)")
    case (Inl e')
    with Cons.prems show ?thesis by (simp add: forEach_Cons del: forEachInterpretation.simps(2))
  next
    case (Inr p)
    let ?m2 = "m\<lparr>worldDictionary := Some (objects cs),
                  records := (records m)(i := (records m i)\<lparr>plan_field := Some p\<rparr>)\<rparr>"
    from Inr Cons.prems have "fst (forEachInterpretation ext cs ips (acc @ [i]) ?m2) = Inl e"
      by (simp add: forEach_Cons del: forEachInterpretation.simps(2))
    from Cons.IH [OF this] obtain j where j: "j \<in> set ips"
      and "fst (planInterpretation ext (intp (records ?m2 j)) cs ?m2) = Inl e" by blast
    moreover have "intp (records ?m2 j) = intp (records m j)" by simp
    ultimately have "fst (planInterpretation ext (intp (records m j)) cs m) = Inl e"
      using planInterpretation_result [of ext "intp (records m j)" cs ?m2 m] by simp
    with j show ?thesis by auto
  qed
qed

text \<open>The loop when every search returns a path, and when one throws.\<close>

lemma forEach_all_found:
  assumes "\<forall>i \<in> set ips. \<exists>p. fst (planInterpretation ext (intp (records m i)) cs m) = Inr p"
  shows "fst (forEachInterpretation ext cs ips acc m) = Inr (acc @ ips)"
  using assms
proof (induction ips arbitrary: acc m)
  case Nil
  then show ?case by simp
next
  case (Cons i ips)
  from Cons.prems obtain p
    where p: "fst (planInterpretation ext (intp (records m i)) cs m) = Inr p" by auto
  let ?m2 = "m\<lparr>worldDictionary := Some (objects cs),
                records := (records m)(i := (records m i)\<lparr>plan_field := Some p\<rparr>)\<rparr>"
  have "\<forall>j \<in> set ips. \<exists>q. fst (planInterpretation ext (intp (records ?m2 j)) cs ?m2) = Inr q"
  proof
    fix j assume "j \<in> set ips"
    with Cons.prems obtain q
      where "fst (planInterpretation ext (intp (records m j)) cs m) = Inr q" by auto
    moreover have "intp (records ?m2 j) = intp (records m j)" by simp
    ultimately show "\<exists>q. fst (planInterpretation ext (intp (records ?m2 j)) cs ?m2) = Inr q"
      using planInterpretation_result [of ext "intp (records m j)" cs ?m2 m] by simp
  qed
  from Cons.IH [OF this] p show ?case
    by (simp add: forEach_Cons del: forEachInterpretation.simps(2))
qed

lemma forEach_first_failure:
  assumes "\<forall>i \<in> set pre. \<exists>p. fst (planInterpretation ext (intp (records m i)) cs m) = Inr p"
    and "fst (planInterpretation ext (intp (records m i)) cs m) = Inl e"
  shows "fst (forEachInterpretation ext cs (pre @ i # post) acc m) = Inl e"
  using assms
proof (induction pre arbitrary: acc m)
  case Nil
  then show ?case by (simp add: forEach_Cons del: forEachInterpretation.simps(2))
next
  case (Cons k pre)
  from Cons.prems obtain p
    where p: "fst (planInterpretation ext (intp (records m k)) cs m) = Inr p" by auto
  let ?m2 = "m\<lparr>worldDictionary := Some (objects cs),
                records := (records m)(k := (records m k)\<lparr>plan_field := Some p\<rparr>)\<rparr>"
  have same: "fst (planInterpretation ext (intp (records ?m2 j)) cs ?m2)
                = fst (planInterpretation ext (intp (records m j)) cs m)" for j
  proof -
    have "intp (records ?m2 j) = intp (records m j)" by simp
    then show ?thesis
      using planInterpretation_result [of ext "intp (records m j)" cs ?m2 m] by simp
  qed
  have "fst (forEachInterpretation ext cs (pre @ i # post) (acc @ [k]) ?m2) = Inl e"
    by (rule Cons.IH) (use Cons.prems same in auto)
  with p show ?case
    by (simp add: forEach_Cons del: forEachInterpretation.simps(2))
qed

text \<open>The plan written into a record is the one of the last time the loop met it.\<close>

lemma forEach_plan_field:
  assumes "\<forall>i \<in> set ips. \<exists>p. fst (planInterpretation ext (intp (records m i)) cs m) = Inr p"
    and "r \<in> set ips"
  shows "fst (planInterpretation ext (intp (records m r)) cs m)
           = Inr (the (plan_field (records (snd (forEachInterpretation ext cs ips acc m)) r)))
         \<and> plan_field (records (snd (forEachInterpretation ext cs ips acc m)) r) \<noteq> None"
  using assms
proof (induction ips arbitrary: acc m)
  case Nil
  then show ?case by simp
next
  case (Cons i ips)
  from Cons.prems obtain p
    where p: "fst (planInterpretation ext (intp (records m i)) cs m) = Inr p" by auto
  let ?m2 = "m\<lparr>worldDictionary := Some (objects cs),
                records := (records m)(i := (records m i)\<lparr>plan_field := Some p\<rparr>)\<rparr>"
  have same: "fst (planInterpretation ext (intp (records ?m2 j)) cs ?m2)
                = fst (planInterpretation ext (intp (records m j)) cs m)" for j
  proof -
    have "intp (records ?m2 j) = intp (records m j)" by simp
    then show ?thesis
      using planInterpretation_result [of ext "intp (records m j)" cs ?m2 m] by simp
  qed
  have step: "forEachInterpretation ext cs (i # ips) acc m
                = forEachInterpretation ext cs ips (acc @ [i]) ?m2"
    using p by (simp add: forEach_Cons del: forEachInterpretation.simps(2))
  show ?case
  proof (cases "r \<in> set ips")
    case True
    have "\<forall>j \<in> set ips. \<exists>q. fst (planInterpretation ext (intp (records ?m2 j)) cs ?m2) = Inr q"
      using Cons.prems(1) same by auto
    from Cons.IH [OF this True, of "acc @ [i]"] same [of r] step show ?thesis by simp
  next
    case False
    with Cons.prems(2) have r: "r = i" by simp
    from False have "records (snd (forEachInterpretation ext cs ips (acc @ [i]) ?m2)) r
                       = records ?m2 r"
      by (rule forEach_other_records)
    with r p step show ?thesis by simp
  qed
qed


lemma plan_fst:
  "fst (plan ext ips cs m) =
     (case fst (forEachInterpretation ext cs ips [] m) of
        Inl e \<Rightarrow> Inl e
      | Inr plans \<Rightarrow> if plans = [] then Inl (PlannerError ''Found no plans'') else Inr plans)"
  by (simp add: plan_def split: prod.splits sum.splits)

lemma plan_snd: "snd (plan ext ips cs m) = snd (forEachInterpretation ext cs ips [] m)"
  by (simp add: plan_def split: prod.splits sum.splits)

lemma scenario_search_a:
  "fst (planInterpretation (scenarioCollaborators throwing)
         [[\<lparr>pol = True, rel = ''holding'', args = [''a'']\<rparr>]] scenarioWorld m)
     = (if throwing then Inl (ExternalError ''no path found'') else Inr [])"
  by (simp add: planInterpretation_def scenarioCollaborators_def oneStepSearch_def
        scenarioWorld_def testAtom_def ret_def argAt_def ebind_simps neighbours_def
        stackAt_def performAction_def cloneState_def push_def)

lemma scenario_search_b:
  "fst (planInterpretation (scenarioCollaborators throwing)
         [[\<lparr>pol = True, rel = ''holding'', args = [''b'']\<rparr>]] scenarioWorld m)
     = Inr [''p'']"
  by (simp add: planInterpretation_def scenarioCollaborators_def oneStepSearch_def
        scenarioWorld_def testAtom_def ret_def argAt_def ebind_simps neighbours_def
        stackAt_def performAction_def cloneState_def push_def)

text \<open>
  Claim C10. \<open>plan\<close> on an empty list of interpretations throws \<open>Planner.Error\<close> with
  the message \<open>Found no plans\<close>. On a non-empty list its own \<open>throw\<close> is out of reach:
  either it returns the records of all the interpretations, one for each and in their
  order, or the exception it ends with is the one that the planning of one of the
  interpretations threw.
\<close>

theorem plan_found_no_plans:
  "fst (plan ext [] cs m) = Inl (PlannerError ''Found no plans'')
   \<and> (interpretations \<noteq> [] \<longrightarrow>
        (case fst (plan ext interpretations cs m) of
           Inr plans \<Rightarrow> plans = interpretations
         | Inl e \<Rightarrow> \<exists>i \<in> set interpretations.
                      fst (planInterpretation ext (intp (records m i)) cs m) = Inl e))"
proof (intro conjI impI)
  show "fst (plan ext [] cs m) = Inl (PlannerError ''Found no plans'')"
    by (simp add: plan_fst)
next
  assume nonempty: "interpretations \<noteq> []"
  show "case fst (plan ext interpretations cs m) of
          Inr plans \<Rightarrow> plans = interpretations
        | Inl e \<Rightarrow> \<exists>i \<in> set interpretations.
                     fst (planInterpretation ext (intp (records m i)) cs m) = Inl e"
  proof (cases "fst (forEachInterpretation ext cs interpretations [] m)")
    case (Inl e)
    from forEach_Inl [OF this] Inl show ?thesis by (simp add: plan_fst)
  next
    case (Inr plans)
    from forEach_Inr [OF this] have "plans = interpretations" by simp
    with Inr nonempty show ?thesis by (simp add: plan_fst)
  qed
qed

theorem plan_found_no_plans_witness:
  "fst (plan (scenarioCollaborators True) [1, 1] scenarioWorld scenarioMemory) = Inr [1, 1]"
  using plan_found_no_plans [of "scenarioCollaborators True" scenarioWorld scenarioMemory "[1, 1]"]
        scenario_search_b [of True scenarioMemory]
  by (auto simp: scenarioMemory_def split: sum.splits)

text \<open>
  Claim C1, as stated, fails. With a search that throws when it finds no path: the
  second interpretation alone is planned with success, yet \<open>plan\<close> on both ends with
  the exception of the first and returns nothing. With a search that returns an empty
  path instead: \<open>plan\<close> returns both records, the failed one with an empty plan.
\<close>

theorem plan_omits_failed_counterexample:
  "fst (planInterpretation (scenarioCollaborators True) (intp (records scenarioMemory 1))
         scenarioWorld scenarioMemory) = Inr [''p'']
   \<and> fst (plan (scenarioCollaborators True) [0, 1] scenarioWorld scenarioMemory)
       = Inl (ExternalError ''no path found'')
   \<and> fst (plan (scenarioCollaborators False) [0, 1] scenarioWorld scenarioMemory) = Inr [0, 1]
   \<and> plan_field (records (snd (plan (scenarioCollaborators False) [0, 1] scenarioWorld
                                  scenarioMemory)) 0) = Some []"
proof (intro conjI)
  show "fst (planInterpretation (scenarioCollaborators True) (intp (records scenarioMemory 1))
          scenarioWorld scenarioMemory) = Inr [''p'']"
    using scenario_search_b [of True scenarioMemory] by (simp add: scenarioMemory_def)
  show "fst (plan (scenarioCollaborators True) [0, 1] scenarioWorld scenarioMemory)
          = Inl (ExternalError ''no path found'')"
    using scenario_search_a [of True scenarioMemory]
    by (simp add: plan_fst forEach_Cons scenarioMemory_def del: forEachInterpretation.simps(2))
  have a: "fst (planInterpretation (scenarioCollaborators False) (intp (records scenarioMemory 0))
             scenarioWorld scenarioMemory) = Inr []"
    using scenario_search_a [of False scenarioMemory] by (simp add: scenarioMemory_def)
  have b: "fst (planInterpretation (scenarioCollaborators False) (intp (records scenarioMemory 1))
             scenarioWorld scenarioMemory) = Inr [''p'']"
    using scenario_search_b [of False scenarioMemory] by (simp add: scenarioMemory_def)
  have all: "\<forall>i \<in> set [0, 1]. \<exists>p. fst (planInterpretation (scenarioCollaborators False)
               (intp (records scenarioMemory i)) scenarioWorld scenarioMemory) = Inr p"
    using a b by simp
  from forEach_all_found [OF all, of "[]"]
  show "fst (plan (scenarioCollaborators False) [0, 1] scenarioWorld scenarioMemory) = Inr [0, 1]"
    by (simp add: plan_fst)
  from forEach_plan_field [OF all, of 0 "[]"] a
  show "plan_field (records (snd (plan (scenarioCollaborators False) [0, 1] scenarioWorld
                                   scenarioMemory)) 0) = Some []"
    by (auto simp: plan_snd)
qed

text \<open>
  Claim C1, amended. When the planning of every interpretation returns a plan (and
  there is at least one interpretation), \<open>plan\<close> returns the records of all of them in
  their order, each with its plan written into it. When the planning of an
  interpretation throws, those before it having succeeded, \<open>plan\<close> ends with that
  exception and returns nothing. With no interpretation at all, \<open>plan\<close> throws
  \<open>Found no plans\<close>.
\<close>

theorem plan_all_or_first_failure:
  "(ips \<noteq> [] \<and> (\<forall>i \<in> set ips. \<exists>p. fst (planInterpretation ext (intp (records m i)) cs m) = Inr p)
      \<longrightarrow> fst (plan ext ips cs m) = Inr ips
          \<and> (\<forall>i \<in> set ips. \<exists>p. plan_field (records (snd (plan ext ips cs m)) i) = Some p
                \<and> fst (planInterpretation ext (intp (records m i)) cs m) = Inr p))
   \<and> ((\<forall>i \<in> set pre. \<exists>p. fst (planInterpretation ext (intp (records m i)) cs m) = Inr p)
        \<and> fst (planInterpretation ext (intp (records m k)) cs m) = Inl e
      \<longrightarrow> fst (plan ext (pre @ k # post) cs m) = Inl e)
   \<and> fst (plan ext [] cs m) = Inl (PlannerError ''Found no plans'')"
proof (intro conjI impI ballI)
  assume h: "ips \<noteq> [] \<and>
     (\<forall>i \<in> set ips. \<exists>p. fst (planInterpretation ext (intp (records m i)) cs m) = Inr p)"
  then have all: "\<forall>i \<in> set ips. \<exists>p. fst (planInterpretation ext (intp (records m i)) cs m) = Inr p"
    by simp
  from forEach_all_found [OF all, of "[]"] h show "fst (plan ext ips cs m) = Inr ips"
    by (simp add: plan_fst)
  fix i assume "i \<in> set ips"
  from forEach_plan_field [OF all this, of "[]"]
  show "\<exists>p. plan_field (records (snd (plan ext ips cs m)) i) = Some p
          \<and> fst (planInterpretation ext (intp (records m i)) cs m) = Inr p"
    by (auto simp: plan_snd)
next
  assume "(\<forall>i \<in> set pre. \<exists>p. fst (planInterpretation ext (intp (records m i)) cs m) = Inr p)
        \<and> fst (planInterpretation ext (intp (records m k)) cs m) = Inl e"
  then have "fst (forEachInterpretation ext cs (pre @ k # post) [] m) = Inl e"
    using forEach_first_failure [of pre ext m cs k e post "[]"] by blast
  then show "fst (plan ext (pre @ k # post) cs m) = Inl e" by (simp add: plan_fst)
next
  show "fst (plan ext [] cs m) = Inl (PlannerError ''Found no plans'')"
    by (simp add: plan_fst)
qed

theorem plan_all_or_first_failure_witness:
  "fst (plan (scenarioCollaborators True) [1] scenarioWorld scenarioMemory) = Inr [1]
   \<and> plan_field (records (snd (plan (scenarioCollaborators True) [1] scenarioWorld
                                  scenarioMemory)) 1) = Some [''p'']
   \<and> fst (plan (scenarioCollaborators True) [1, 0, 1] scenarioWorld scenarioMemory)
       = Inl (ExternalError ''no path found'')"
  using plan_all_or_first_failure
          [where ext = "scenarioCollaborators True" and cs = scenarioWorld and m = scenarioMemory
             and ips = "[1]" and pre = "[1]" and k = 0 and post = "[1]"
             and e = "ExternalError ''no path found''"]
        scenario_search_a [of True scenarioMemory] scenario_search_b [of True scenarioMemory]
  by (simp add: scenarioMemory_def)





section \<open>Properties of the transition generator on the store\<close>

lemma cloneLoop_effect:
  assumes "src \<noteq> rs" and "\<forall>i \<in> set idx. stackArrays h src ! i < lim h"
  shows "lim (cloneLoop src rs idx h) = lim h + length idx
       \<and> stateObjects (cloneLoop src rs idx h) = stateObjects h
       \<and> stackArrays (cloneLoop src rs idx h)
           = (stackArrays h)(rs := stackArrays h rs @ [lim h ..< lim h + length idx])
       \<and> (\<forall>x < lim h. rowArrays (cloneLoop src rs idx h) x = rowArrays h x)
       \<and> map (rowArrays (cloneLoop src rs idx h)) [lim h ..< lim h + length idx]
           = map (\<lambda>i. rowArrays h (stackArrays h src ! i)) idx"
  using assms
proof (induction idx arbitrary: h)
  case Nil
  then show ?case by simp
next
  case (Cons i idx)
  let ?h2 = "h\<lparr>rowArrays := (rowArrays h)(lim h := rowArrays h (stackArrays h src ! i)),
               lim := lim h + 1,
               stackArrays := (stackArrays h)(rs := stackArrays h rs @ [lim h])\<rparr>"
  have step: "cloneLoop src rs (i # idx) h = cloneLoop src rs idx ?h2"
    by (simp add: Let_def)
  have src: "stackArrays ?h2 src = stackArrays h src" using Cons.prems(1) by simp
  have pre: "\<forall>j \<in> set idx. stackArrays ?h2 src ! j < lim ?h2"
    using Cons.prems(2) src by auto
  note IH = Cons.IH [OF Cons.prems(1) pre]
  have upt: "[lim h ..< lim h + length (i # idx)] = lim h # [lim h + 1 ..< lim h + 1 + length idx]"
  proof -
    have "lim h < lim h + length (i # idx)" by simp
    from upt_conv_Cons [OF this] show ?thesis by simp
  qed
  have old: "\<forall>x < lim h + 1. rowArrays (cloneLoop src rs idx ?h2) x = rowArrays ?h2 x"
    using IH by simp
  have l1: "lim (cloneLoop src rs idx ?h2) = lim h + length (i # idx)"
    using IH by simp
  have l2: "stateObjects (cloneLoop src rs idx ?h2) = stateObjects h"
    using IH by simp
  have l3: "stackArrays (cloneLoop src rs idx ?h2)
         = (stackArrays h)(rs := stackArrays h rs @ [lim h ..< lim h + length (i # idx)])"
    using IH unfolding upt by (simp add: fun_eq_iff)
  have l4: "\<forall>x < lim h. rowArrays (cloneLoop src rs idx ?h2) x = rowArrays h x"
    using old by simp
  have "rowArrays (cloneLoop src rs idx ?h2) (lim h) = rowArrays h (stackArrays h src ! i)"
    using old by simp
  moreover have "map (rowArrays (cloneLoop src rs idx ?h2)) [lim h + 1 ..< lim h + 1 + length idx]
          = map (\<lambda>j. rowArrays h (stackArrays h src ! j)) idx"
  proof -
    have "map (rowArrays (cloneLoop src rs idx ?h2)) [lim h + 1 ..< lim h + 1 + length idx]
            = map (\<lambda>j. rowArrays ?h2 (stackArrays ?h2 src ! j)) idx"
      using IH by simp
    also have "\<dots> = map (\<lambda>j. rowArrays h (stackArrays h src ! j)) idx"
      using Cons.prems(2) src by (auto simp del: Store.simps)
    finally show ?thesis .
  qed
  ultimately have l5: "map (rowArrays (cloneLoop src rs idx ?h2)) [lim h ..< lim h + length (i # idx)]
          = map (\<lambda>j. rowArrays h (stackArrays h src ! j)) (i # idx)"
    unfolding upt by simp
  show ?case unfolding step using l1 l2 l3 l4 l5 by blast
qed


lemma cloneStateH_effect:
  assumes "present h s" and "cloneStateH s h = (n, h')"
  shows "n = lim h + 1 + length (stackArrays h (objStacks (stateObjects h s)))
       \<and> lim h' = n + 1
       \<and> stateObjects h' = (stateObjects h)
            (n := \<lparr>objArm = objArm (stateObjects h s), objHolding = objHolding (stateObjects h s),
                   objStacks = lim h\<rparr>)
       \<and> stackArrays h' = (stackArrays h)
            (lim h := [lim h + 1 ..< lim h + 1 + length (stackArrays h (objStacks (stateObjects h s)))])
       \<and> (\<forall>x < lim h. rowArrays h' x = rowArrays h x)
       \<and> map (rowArrays h')
            [lim h + 1 ..< lim h + 1 + length (stackArrays h (objStacks (stateObjects h s)))]
           = map (rowArrays h) (stackArrays h (objStacks (stateObjects h s)))"
proof -
  let ?src = "objStacks (stateObjects h s)"
  let ?rows = "stackArrays h ?src"
  let ?h1 = "h\<lparr>stackArrays := (stackArrays h)(lim h := []), lim := lim h + 1\<rparr>"
  let ?h2 = "cloneLoop ?src (lim h) [0 ..< length ?rows] ?h1"
  from assms(1) have src: "?src < lim h" and rows: "\<forall>r \<in> set ?rows. r < lim h"
    by (simp_all add: present_def)
  from src have ne: "?src \<noteq> lim h" by simp
  from src have rows1: "stackArrays ?h1 ?src = ?rows" by simp
  have pre: "\<forall>i \<in> set [0 ..< length ?rows]. stackArrays ?h1 ?src ! i < lim ?h1"
    using rows rows1 by (auto simp: less_Suc_eq)
  note loop = cloneLoop_effect [OF ne pre]
  have lim2: "lim ?h2 = lim h + 1 + length ?rows" using loop by simp
  have so2: "stateObjects ?h2 = stateObjects h" using loop by simp
  have sa2: "stackArrays ?h2 = (stackArrays h)(lim h := [lim h + 1 ..< lim h + 1 + length ?rows])"
    using loop by (simp add: fun_eq_iff)
  have old2: "\<forall>x < lim h. rowArrays ?h2 x = rowArrays h x" using loop by simp
  have "map (rowArrays ?h2) [lim h + 1 ..< lim h + 1 + length ?rows]
          = map (\<lambda>i. rowArrays ?h1 (stackArrays ?h1 ?src ! i)) [0 ..< length ?rows]"
    using loop by simp
  also have "\<dots> = map (\<lambda>i. rowArrays h (?rows ! i)) [0 ..< length ?rows]"
    using rows1 by simp
  also have "\<dots> = map (rowArrays h) ?rows"
    by (rule nth_equalityI) simp_all
  finally have new2: "map (rowArrays ?h2) [lim h + 1 ..< lim h + 1 + length ?rows]
          = map (rowArrays h) ?rows" .
  from assms(2) have n: "n = lim ?h2"
    and h': "h' = ?h2\<lparr>stateObjects := (stateObjects ?h2)
                       (lim ?h2 := \<lparr>objArm = objArm (stateObjects ?h2 s),
                                     objHolding = objHolding (stateObjects ?h2 s),
                                     objStacks = lim h\<rparr>),
                     lim := lim ?h2 + 1\<rparr>"
    using ne by (auto simp: cloneStateH_def Let_def)
  show ?thesis
    unfolding h' n using lim2 so2 sa2 old2 new2 by simp
qed


lemma map_fun_upd_nth:
  assumes "distinct xs" and "i < length xs"
  shows "map (f(xs ! i := v)) xs = (map f xs)[i := v]"
proof (rule nth_equalityI)
  show "length (map (f(xs ! i := v)) xs) = length ((map f xs)[i := v])" by simp
next
  fix j assume "j < length (map (f(xs ! i := v)) xs)"
  then have j: "j < length xs" by simp
  with assms have "xs ! j = xs ! i \<longleftrightarrow> j = i" by (simp add: nth_eq_iff_index_eq)
  with j assms(2) show "map (f(xs ! i := v)) xs ! j = (map f xs)[i := v] ! j"
    by (simp add: nth_list_update)
qed

text \<open>What \<open>performActionH\<close> does after the copy, for each label.\<close>

lemma performActionH_after_clone:
  assumes "present h s" and "cloneStateH s h = (n, h1)"
    and "action = ''p'' \<or> action = ''d'' \<longrightarrow>
           0 \<le> arm (stateAt h s) \<and> arm (stateAt h s) < int (length (stacks (stateAt h s)))"
    and "action \<in> {''l'', ''r'', ''p'', ''d''}"
  shows "\<exists>h'. performActionH action s h = (Inr (action, n), h')
           \<and> (\<forall>x < lim h. stateObjects h' x = stateObjects h x
                          \<and> stackArrays h' x = stackArrays h x
                          \<and> rowArrays h' x = rowArrays h x)
           \<and> lim h \<le> n
           \<and> objStacks (stateObjects h' n) = lim h
           \<and> (\<forall>r \<in> set (stackArrays h' (lim h)). lim h \<le> r)
           \<and> distinct (stackArrays h' (lim h))
           \<and> performAction action (stateAt h s) = Inr (action, stateAt h' n)"
proof -
  let ?rows = "stackArrays h (objStacks (stateObjects h s))"
  define cols where "cols = [lim h + 1 ..< lim h + 1 + length ?rows]"
  have cols_length: "length cols = length ?rows" by (simp add: cols_def del: upt_Suc)
  have cols_distinct: "distinct cols" by (simp add: cols_def del: upt_Suc)
  have cols_fresh: "\<forall>r \<in> set cols. lim h < r" by (simp add: cols_def del: upt_Suc)
  note eff = cloneStateH_effect [OF assms(1,2), folded cols_def]
  from assms(1) have s: "s < lim h" by (simp add: present_def)
  from eff have n: "n = lim h + 1 + length ?rows" by simp
  from s n have sn: "s \<noteq> n" by simp
  from eff have so: "stateObjects h1 = (stateObjects h)
            (n := \<lparr>objArm = objArm (stateObjects h s), objHolding = objHolding (stateObjects h s),
                   objStacks = lim h\<rparr>)" by simp
  from eff have sa: "stackArrays h1 = (stackArrays h)(lim h := cols)" by simp
  from eff have old: "\<forall>x < lim h. rowArrays h1 x = rowArrays h x" by simp
  from eff have new: "map (rowArrays h1) cols = map (rowArrays h) ?rows" by simp
  have len: "length (stacks (stateAt h s)) = length ?rows" by (simp add: stateAt_def)
  consider (l) "action = ''l''" | (r) "action = ''r''" | (p) "action = ''p''" | (d) "action = ''d''"
    using assms(4) by auto
  then show ?thesis
  proof cases
    case l
    let ?h' = "h1\<lparr>stateObjects := (stateObjects h1)
                 (n := (stateObjects h1 n)\<lparr>objArm := objArm (stateObjects h1 s) - 1\<rparr>)\<rparr>"
    have run: "performActionH action s h = (Inr (action, n), ?h')"
      using assms(2) l by (simp add: performActionH_def)
    have "stateAt ?h' n = (stateAt h s)\<lparr>arm := arm (stateAt h s) - 1\<rparr>"
      using so sa new sn by (simp add: stateAt_def)
    with run l so sa old n cols_fresh cols_distinct show ?thesis
      by (simp add: performAction_l less_imp_le)
  next
    case r
    let ?h' = "h1\<lparr>stateObjects := (stateObjects h1)
                 (n := (stateObjects h1 n)\<lparr>objArm := objArm (stateObjects h1 s) + 1\<rparr>)\<rparr>"
    have run: "performActionH action s h = (Inr (action, n), ?h')"
      using assms(2) r by (simp add: performActionH_def)
    have "stateAt ?h' n = (stateAt h s)\<lparr>arm := arm (stateAt h s) + 1\<rparr>"
      using so sa new sn by (simp add: stateAt_def)
    with run r so sa old n cols_fresh cols_distinct show ?thesis
      by (simp add: performAction_r less_imp_le)
  next
    case p
    with assms(3) len have range: "0 \<le> objArm (stateObjects h s)"
        "objArm (stateObjects h s) < int (length ?rows)"
      by (simp_all add: stateAt_def)
    let ?a = "nat (objArm (stateObjects h s))"
    have a: "?a < length cols" using range cols_length by simp
    let ?row = "cols ! ?a"
    let ?st = "rowArrays h1 ?row"
    have row: "lim h < ?row" using a cols_fresh by simp
    have st: "?st = stacks (stateAt h s) ! ?a"
    proof -
      have "?st = map (rowArrays h1) cols ! ?a" using a by simp
      also have "\<dots> = map (rowArrays h) ?rows ! ?a" unfolding new ..
      finally show ?thesis by (simp add: stateAt_def)
    qed
    let ?h' = "h1\<lparr>rowArrays := (rowArrays h1)(?row := butlast ?st),
                  stateObjects := (stateObjects h1)
                    (n := (stateObjects h1 n)
                            \<lparr>objHolding := (if ?st = [] then Undefined else last ?st)\<rparr>)\<rparr>"
    have run: "performActionH action s h = (Inr (action, n), ?h')"
      using assms(2) p range so sa cols_length by (simp add: performActionH_def Let_def)
    have "map ((rowArrays h1)(?row := butlast ?st)) cols = (map (rowArrays h1) cols)[?a := butlast ?st]"
      using cols_distinct a by (rule map_fun_upd_nth)
    then have stacks': "stacks (stateAt ?h' n) = (stacks (stateAt h s))[?a := butlast ?st]"
      using so sa new by (simp add: stateAt_def)
    have at: "stackAt (stateAt h s) = Some (stacks (stateAt h s) ! ?a)"
      using range len by (simp add: stackAt_def stateAt_def)
    have "stateAt ?h' n = (stateAt h s)\<lparr>stacks := (stacks (stateAt h s))[?a := butlast ?st],
                                          holding := (if ?st = [] then Undefined else last ?st)\<rparr>"
      using stacks' so by (simp add: stateAt_def)
    then have pa: "performAction action (stateAt h s) = Inr (action, stateAt ?h' n)"
      using p at st by (simp add: performAction_p stateAt_def)
    have frame: "\<forall>x < lim h. stateObjects ?h' x = stateObjects h x
                          \<and> stackArrays ?h' x = stackArrays h x
                          \<and> rowArrays ?h' x = rowArrays h x"
      using so sa old n row by auto
    from run frame pa so sa n cols_fresh cols_distinct show ?thesis
      by (simp add: less_imp_le)
  next
    case d
    with assms(3) len have range: "0 \<le> objArm (stateObjects h s)"
        "objArm (stateObjects h s) < int (length ?rows)"
      by (simp_all add: stateAt_def)
    let ?a = "nat (objArm (stateObjects h s))"
    have a: "?a < length cols" using range cols_length by simp
    let ?row = "cols ! ?a"
    let ?st = "rowArrays h1 ?row"
    let ?v = "objHolding (stateObjects h s)"
    have row: "lim h < ?row" using a cols_fresh by simp
    have st: "?st = stacks (stateAt h s) ! ?a"
    proof -
      have "?st = map (rowArrays h1) cols ! ?a" using a by simp
      also have "\<dots> = map (rowArrays h) ?rows ! ?a" unfolding new ..
      finally show ?thesis by (simp add: stateAt_def)
    qed
    let ?h' = "h1\<lparr>rowArrays := (rowArrays h1)(?row := ?st @ [?v]),
                  stateObjects := (stateObjects h1)
                    (n := (stateObjects h1 n)\<lparr>objHolding := Null\<rparr>)\<rparr>"
    have run: "performActionH action s h = (Inr (action, n), ?h')"
      using assms(2) d range so sa cols_length by (simp add: performActionH_def Let_def)
    have "map ((rowArrays h1)(?row := ?st @ [?v])) cols = (map (rowArrays h1) cols)[?a := ?st @ [?v]]"
      using cols_distinct a by (rule map_fun_upd_nth)
    then have stacks': "stacks (stateAt ?h' n) = (stacks (stateAt h s))[?a := ?st @ [?v]]"
      using so sa new by (simp add: stateAt_def)
    have at: "stackAt (stateAt h s) = Some (stacks (stateAt h s) ! ?a)"
      using range len by (simp add: stackAt_def stateAt_def)
    have "stateAt ?h' n = (stateAt h s)\<lparr>stacks := (stacks (stateAt h s))[?a := ?st @ [?v]],
                                          holding := Null\<rparr>"
      using stacks' so by (simp add: stateAt_def)
    then have pa: "performAction action (stateAt h s) = Inr (action, stateAt ?h' n)"
      using d at st by (simp add: performAction_d stateAt_def)
    have frame: "\<forall>x < lim h. stateObjects ?h' x = stateObjects h x
                          \<and> stackArrays ?h' x = stackArrays h x
                          \<and> rowArrays ?h' x = rowArrays h x"
      using so sa old n row by auto
    from run frame pa so sa n cols_fresh cols_distinct show ?thesis
      by (simp add: less_imp_le)
  qed
qed


lemma cloneStateH_independent:
  assumes "present h s" and "cloneStateH s h = (n, h')"
  shows "lim h \<le> n
       \<and> (\<forall>x < lim h. stateObjects h' x = stateObjects h x
                      \<and> stackArrays h' x = stackArrays h x
                      \<and> rowArrays h' x = rowArrays h x)
       \<and> lim h \<le> objStacks (stateObjects h' n)
       \<and> (\<forall>r \<in> set (stackArrays h' (objStacks (stateObjects h' n))). lim h \<le> r)
       \<and> distinct (stackArrays h' (objStacks (stateObjects h' n)))
       \<and> stateAt h' n = stateAt h s"
proof -
  let ?rows = "stackArrays h (objStacks (stateObjects h s))"
  define cols where "cols = [lim h + 1 ..< lim h + 1 + length ?rows]"
  have cols_distinct: "distinct cols" by (simp add: cols_def del: upt_Suc)
  have cols_fresh: "\<forall>r \<in> set cols. lim h < r" by (simp add: cols_def del: upt_Suc)
  note eff = cloneStateH_effect [OF assms, folded cols_def]
  from eff have n: "n = lim h + 1 + length ?rows" by simp
  from eff have so: "stateObjects h' = (stateObjects h)
            (n := \<lparr>objArm = objArm (stateObjects h s), objHolding = objHolding (stateObjects h s),
                   objStacks = lim h\<rparr>)" by simp
  from eff have sa: "stackArrays h' = (stackArrays h)(lim h := cols)" by simp
  from eff have old: "\<forall>x < lim h. rowArrays h' x = rowArrays h x" by simp
  from eff have new: "map (rowArrays h') cols = map (rowArrays h) ?rows" by simp
  have "stateAt h' n = stateAt h s" using so sa new by (simp add: stateAt_def)
  with n so sa old cols_distinct cols_fresh show ?thesis by (simp add: less_imp_le)
qed

lemma stateAt_frame:
  assumes "present h s"
    and "\<forall>x < lim h. stateObjects h' x = stateObjects h x
                    \<and> stackArrays h' x = stackArrays h x
                    \<and> rowArrays h' x = rowArrays h x"
  shows "stateAt h' s = stateAt h s"
  using assms by (simp add: stateAt_def present_def)

text \<open>
  Claim C7. For a state that exists in the store, with its arm over one of its columns
  where the label is \<open>p\<close> or \<open>d\<close>, and each of the labels \<open>l\<close>, \<open>r\<close>, \<open>p\<close>, \<open>d\<close>:
  \<open>performAction\<close> returns a new state object and writes to nothing that was in the
  store before, so the state it was given is unchanged in arm, holding and every stack.
  This is so because \<open>cloneState\<close> gives the copy an array of stacks and rows of its
  own, all of them new and pairwise different, with the same contents, arm and holding
  as the original. The new state is the one the value-level \<open>performAction\<close> computes.
\<close>

theorem performAction_input_unchanged:
  assumes "present h s" and "action \<in> {''l'', ''r'', ''p'', ''d''}"
    and "action = ''p'' \<or> action = ''d'' \<longrightarrow>
           0 \<le> arm (stateAt h s) \<and> arm (stateAt h s) < int (length (stacks (stateAt h s)))"
  shows "(case cloneStateH s h of
            (n, h') \<Rightarrow>
              lim h \<le> n
              \<and> (\<forall>x < lim h. stateObjects h' x = stateObjects h x
                             \<and> stackArrays h' x = stackArrays h x
                             \<and> rowArrays h' x = rowArrays h x)
              \<and> lim h \<le> objStacks (stateObjects h' n)
              \<and> (\<forall>r \<in> set (stackArrays h' (objStacks (stateObjects h' n))). lim h \<le> r)
              \<and> distinct (stackArrays h' (objStacks (stateObjects h' n)))
              \<and> stateAt h' n = stateAt h s)
       \<and> (case performActionH action s h of
            (Inl e, h') \<Rightarrow> False
          | (Inr (a, n), h') \<Rightarrow>
              a = action \<and> lim h \<le> n
              \<and> (\<forall>x < lim h. stateObjects h' x = stateObjects h x
                             \<and> stackArrays h' x = stackArrays h x
                             \<and> rowArrays h' x = rowArrays h x)
              \<and> stateAt h' s = stateAt h s
              \<and> lim h \<le> objStacks (stateObjects h' n)
              \<and> (\<forall>r \<in> set (stackArrays h' (objStacks (stateObjects h' n))). lim h \<le> r)
              \<and> distinct (stackArrays h' (objStacks (stateObjects h' n)))
              \<and> performAction action (stateAt h s) = Inr (action, stateAt h' n))"
proof
  obtain n h1 where clone: "cloneStateH s h = (n, h1)" by (cases "cloneStateH s h")
  from cloneStateH_independent [OF assms(1) clone] clone
  show "case cloneStateH s h of
          (n, h') \<Rightarrow>
            lim h \<le> n
            \<and> (\<forall>x < lim h. stateObjects h' x = stateObjects h x
                           \<and> stackArrays h' x = stackArrays h x
                           \<and> rowArrays h' x = rowArrays h x)
            \<and> lim h \<le> objStacks (stateObjects h' n)
            \<and> (\<forall>r \<in> set (stackArrays h' (objStacks (stateObjects h' n))). lim h \<le> r)
            \<and> distinct (stackArrays h' (objStacks (stateObjects h' n)))
            \<and> stateAt h' n = stateAt h s"
    by simp
  from performActionH_after_clone [OF assms(1) clone assms(3,2)]
  obtain h' where run: "performActionH action s h = (Inr (action, n), h')"
    and frame: "\<forall>x < lim h. stateObjects h' x = stateObjects h x
                          \<and> stackArrays h' x = stackArrays h x
                          \<and> rowArrays h' x = rowArrays h x"
    and rest: "lim h \<le> n" "objStacks (stateObjects h' n) = lim h"
      "\<forall>r \<in> set (stackArrays h' (lim h)). lim h \<le> r" "distinct (stackArrays h' (lim h))"
      "performAction action (stateAt h s) = Inr (action, stateAt h' n)"
    by blast
  from stateAt_frame [OF assms(1) frame] have "stateAt h' s = stateAt h s" .
  with run frame rest
  show "case performActionH action s h of
          (Inl e, h') \<Rightarrow> False
        | (Inr (a, n), h') \<Rightarrow>
            a = action \<and> lim h \<le> n
            \<and> (\<forall>x < lim h. stateObjects h' x = stateObjects h x
                           \<and> stackArrays h' x = stackArrays h x
                           \<and> rowArrays h' x = rowArrays h x)
            \<and> stateAt h' s = stateAt h s
            \<and> lim h \<le> objStacks (stateObjects h' n)
            \<and> (\<forall>r \<in> set (stackArrays h' (objStacks (stateObjects h' n))). lim h \<le> r)
            \<and> distinct (stackArrays h' (objStacks (stateObjects h' n)))
            \<and> performAction action (stateAt h s) = Inr (action, stateAt h' n)"
    by simp
qed

lemma scenarioStore_pick:
  "fst (performActionH ''p'' 0 scenarioStore) = Inr (''p'', 5)"
  by (simp add: performActionH_def cloneStateH_def Let_def scenarioStore_def)

theorem performAction_input_unchanged_witness:
  "stateAt scenarioStore 0 = scenarioStart
   \<and> fst (performActionH ''p'' 0 scenarioStore) = Inr (''p'', 5)
   \<and> stateAt (snd (performActionH ''p'' 0 scenarioStore)) 0 = scenarioStart
   \<and> stateAt (snd (performActionH ''p'' 0 scenarioStore)) 5
       = \<lparr>arm = 0, holding = Str ''b'', stacks = [[Str ''a''], []]\<rparr>"
proof -
  have start: "stateAt scenarioStore 0 = scenarioStart"
    by (simp add: stateAt_def scenarioStore_def scenarioStart_def)
  have pres: "present scenarioStore 0" by (simp add: present_def scenarioStore_def)
  have pa: "performAction ''p'' scenarioStart
              = Inr (''p'', \<lparr>arm = 0, holding = Str ''b'', stacks = [[Str ''a''], []]\<rparr>)"
    by (simp add: performAction_p stackAt_def scenarioStart_def)
  obtain res h' where run: "performActionH ''p'' 0 scenarioStore = (res, h')"
    by (cases "performActionH ''p'' 0 scenarioStore")
  with scenarioStore_pick have res: "res = Inr (''p'', 5)" by simp
  from performAction_input_unchanged [OF pres, of "''p''"] start run res pa
  show ?thesis by (simp add: scenarioStart_def)
qed

end
